theory Spec2Isabelle
  imports Main "HOL-Library.Word" "HOL-Library.Monad_Syntax"
begin

section \<open>The atomic helpers of drivers/gpu/drm/drm_atomic_helper.c\<close>

text \<open>
  The embedding follows the C file function by function. Pointers are \<open>addr option\<close>
  (\<open>None\<close> is \<open>NULL\<close>), memory is a store from addresses to structs, one store per
  struct type. Every function returns an \<open>option\<close>: \<open>None\<close> means that the C code
  performed an invalid memory access (it read or wrote through \<open>NULL\<close> or through a
  pointer to freed memory, or indexed an array outside its bounds); \<open>Some\<close> carries
  the C return value and the memory after the call. A plane or crtc object is
  identified with its index \<open>plane->id\<close> / \<open>crtc->id\<close>; the objects themselves are
  never freed. Locks (\<open>drm_modeset_lock_all\<close>, \<open>crtc->mutex\<close>) are not modelled: the
  embedding is sequential.
\<close>

subsection \<open>Data\<close>

type_synonym addr = nat
type_synonym fb_ref = nat
type_synonym u32 = "32 word"

text \<open>
  \<open>struct drm_plane_state\<close> and \<open>struct drm_crtc_state\<close> are declared outside the two
  source files; the records have the fields that the helpers read and write. A
  pointer to a crtc or a plane is its index, a pointer to a framebuffer is a
  number, \<open>state\<close> is the back-pointer to the transaction. The array \<open>connector_ids\<close>
  is a list, \<open>num_connector_ids\<close> its length.
\<close>

record drm_plane_state =
  ps_crtc :: "nat option"
  ps_fb :: "fb_ref option"
  ps_crtc_x :: u32
  ps_crtc_y :: u32
  ps_crtc_w :: u32
  ps_crtc_h :: u32
  ps_src_x :: u32
  ps_src_y :: u32
  ps_src_w :: u32
  ps_src_h :: u32
  ps_propvals :: "(nat \<times> 64 word) list"
  ps_state :: "addr option"

record drm_crtc_state =
  cs_fb :: "fb_ref option"
  cs_set_config :: bool
  cs_event :: "nat option"
  cs_x :: u32
  cs_y :: u32
  cs_mode_valid :: bool
  cs_mode :: nat
  cs_connector_ids :: "u32 list"
  cs_propvals :: "(nat \<times> 64 word) list"
  cs_state :: "addr option"

text \<open>\<open>struct drm_mode_set\<close>, as \<open>set_config\<close> and the disable branch fill it in.\<close>

record drm_mode_set =
  ms_crtc :: nat
  ms_x :: u32
  ms_y :: u32
  ms_mode :: "nat option"
  ms_num_connectors :: nat
  ms_connectors :: "nat option list option"
  ms_fb :: "fb_ref option"

text \<open>The fields of \<open>struct drm_plane\<close> and \<open>struct drm_crtc\<close> that the helpers use.\<close>

record drm_plane =
  pl_state :: "addr option"
  pl_propvals :: "addr option"

record drm_crtc =
  cr_state :: "addr option"
  cr_fb :: "fb_ref option"
  cr_propvals :: "addr option"

record drm_atomic_helper_state =
  flags :: u32
  planes :: "nat option list"
  pstates :: "addr option list"
  crtcs :: "nat option list"
  cstates :: "addr option list"

text \<open>
  The calls that leave the file: the driver's primitives, the check hook, and the
  reference counting of framebuffers. Each call is recorded in the trace of the
  world, in the order in which the C code makes it.
\<close>

datatype event =
    Check_plane_state nat drm_plane_state
  | Check_crtc_state nat drm_crtc_state
  | Update_plane nat nat fb_ref "u32 \<times> u32 \<times> u32 \<times> u32" "u32 \<times> u32 \<times> u32 \<times> u32"
  | Disable_plane nat
  | Page_flip nat fb_ref "nat option" u32
  | Mode_set_config_internal drm_mode_set
  | Framebuffer_unreference fb_ref

text \<open>
  The device: the counts of \<open>dev->mode_config\<close>, the size of a pointer in bytes (4
  or 8), and the behaviour of everything the helpers call but do not define. \<open>alloc_ok n\<close> says whether the \<open>n\<close>-th
  allocation of the run succeeds. \<open>page_flip c\<close> is \<open>None\<close> when
  \<open>crtc->funcs->page_flip\<close> is \<open>NULL\<close> for crtc \<open>c\<close>. The results of the primitives are
  functions of their arguments; what they do to the hardware is outside the model.
\<close>

record drm_device =
  num_plane :: nat
  num_crtc :: nat
  ptr_bytes :: nat
  alloc_ok :: "nat \<Rightarrow> bool"
  check_plane_state :: "nat \<Rightarrow> drm_plane_state \<Rightarrow> int"
  check_crtc_state :: "nat \<Rightarrow> drm_crtc_state \<Rightarrow> int"
  update_plane :: "nat \<Rightarrow> nat \<Rightarrow> fb_ref \<Rightarrow> u32 \<times> u32 \<times> u32 \<times> u32 \<Rightarrow> u32 \<times> u32 \<times> u32 \<times> u32 \<Rightarrow> int"
  page_flip :: "nat \<Rightarrow> (fb_ref \<Rightarrow> nat option \<Rightarrow> u32 \<Rightarrow> int) option"
  mode_set_config_internal :: "drm_mode_set \<Rightarrow> int"
  connector_find :: "u32 \<Rightarrow> nat option"
  plane_set_property :: "nat \<Rightarrow> drm_plane_state \<Rightarrow> nat \<Rightarrow> 64 word \<Rightarrow> int \<times> drm_plane_state"
  crtc_set_property :: "nat \<Rightarrow> drm_crtc_state \<Rightarrow> nat \<Rightarrow> 64 word \<Rightarrow> int \<times> drm_crtc_state"

record world =
  plane_objs :: "nat \<Rightarrow> drm_plane"
  crtc_objs :: "nat \<Rightarrow> drm_crtc"
  pstate_mem :: "addr \<rightharpoonup> drm_plane_state"
  cstate_mem :: "addr \<rightharpoonup> drm_crtc_state"
  helper_mem :: "addr \<rightharpoonup> drm_atomic_helper_state"
  fb_refcount :: "fb_ref \<Rightarrow> int"
  n_alloc :: nat
  trace :: "event list"

text \<open>
  The two errno values that the file uses; they are declared in the kernel's
  \<open>errno-base.h\<close>, outside the two source files.
\<close>

definition EBUSY :: int where
  "EBUSY = 16"

definition EINVAL :: int where
  "EINVAL = 22"

subsection \<open>Memory\<close>

text \<open>Reading through a pointer: \<open>None\<close> for \<open>NULL\<close> and for memory that is not allocated.\<close>

definition deref :: "addr option \<Rightarrow> (addr \<rightharpoonup> 'a) \<Rightarrow> 'a option" where
  "deref p mem = (case p of None \<Rightarrow> None | Some a \<Rightarrow> mem a)"

text \<open>Reading \<open>xs[i]\<close>: \<open>None\<close> outside the array.\<close>

definition nth_opt :: "'a list \<Rightarrow> nat \<Rightarrow> 'a option" where
  "nth_opt xs i = (if i < length xs then Some (xs ! i) else None)"

text \<open>Writing \<open>xs[i] = v\<close>: \<open>None\<close> outside the array.\<close>

definition list_write :: "'a list \<Rightarrow> nat \<Rightarrow> 'a \<Rightarrow> 'a list option" where
  "list_write xs i v = (if i < length xs then Some (xs[i := v]) else None)"

text \<open>
  \<open>kzalloc\<close> / \<open>kmalloc\<close>: the device decides whether the allocation succeeds; a
  successful one returns an address that no earlier allocation returned.
\<close>

definition kzalloc :: "drm_device \<Rightarrow> world \<Rightarrow> addr option \<times> world" where
  "kzalloc dev w =
     (if alloc_ok dev (n_alloc w)
      then (Some (n_alloc w), w\<lparr>n_alloc := Suc (n_alloc w)\<rparr>)
      else (None, w\<lparr>n_alloc := Suc (n_alloc w)\<rparr>))"

definition emit :: "event \<Rightarrow> world \<Rightarrow> world" where
  "emit e w = w\<lparr>trace := trace w @ [e]\<rparr>"

text \<open>
  Modelled from the spec: \<open>drm_framebuffer_unreference\<close> is defined outside the two
  source files; it releases one reference to the image.
\<close>

definition drm_framebuffer_unreference :: "fb_ref \<Rightarrow> world \<Rightarrow> world" where
  "drm_framebuffer_unreference fb w =
     emit (Framebuffer_unreference fb) (w\<lparr>fb_refcount := (fb_refcount w)(fb := fb_refcount w fb - 1)\<rparr>)"

text \<open>The C idiom \<open>if (fb) drm_framebuffer_unreference(fb);\<close>\<close>

definition unreference_if :: "fb_ref option \<Rightarrow> world \<Rightarrow> world" where
  "unreference_if fb w = (case fb of None \<Rightarrow> w | Some f \<Rightarrow> drm_framebuffer_unreference f w)"

subsection \<open>begin\<close>

text \<open>
  \<open>sizeof(*state)\<close>: the 32-bit \<open>flags\<close>, padded to the alignment of a pointer, and four
  pointers; 20 bytes with 4-byte pointers, 40 with 8-byte pointers.
\<close>

definition sizeof_helper_state :: "drm_device \<Rightarrow> nat" where
  "sizeof_helper_state dev = 5 * ptr_bytes dev"

text \<open>
  The byte count \<open>sz\<close> is a C \<open>int\<close>: each \<open>sz += ...\<close> keeps the low 32 bits of the sum,
  so \<open>sz\<close> is the exact count modulo \<open>2 ^ 32\<close>, read as a signed number.
\<close>

definition begin_sz :: "drm_device \<Rightarrow> 32 word" where
  "begin_sz dev =
     of_nat (sizeof_helper_state dev) +
     of_nat ((ptr_bytes dev + ptr_bytes dev) * num_plane dev) +
     of_nat ((ptr_bytes dev + ptr_bytes dev) * num_crtc dev)"

text \<open>
  \<open>kzalloc\<close> takes a \<open>size_t\<close>, an unsigned number as wide as a pointer: a negative
  \<open>int\<close> becomes a count near the top of its range.
\<close>

definition size_t_of_int :: "drm_device \<Rightarrow> 32 word \<Rightarrow> nat" where
  "size_t_of_int dev sz =
     (if 0 \<le> sint sz then nat (sint sz) else 2 ^ (8 * ptr_bytes dev) - nat (- sint sz))"

text \<open>
  How many of the \<open>n\<close> elements of an array that starts \<open>offset\<close> bytes into a block
  of \<open>bytes\<close> bytes lie inside the block, when an element is \<open>width\<close> bytes.
\<close>

definition slots_inside :: "nat \<Rightarrow> nat \<Rightarrow> nat \<Rightarrow> nat \<Rightarrow> nat" where
  "slots_inside bytes offset width n = min n ((bytes - offset) div width)"

text \<open>
  One block holds the struct and its four arrays, laid out one after the other;
  \<open>kzalloc\<close> zeroes it, so every marker and every slot is \<open>NULL\<close>. The result of \<open>kzalloc\<close>
  is not tested: the first write, \<open>state->flags = flags\<close>, goes through it. The block
  has the bytes that \<open>sz\<close> asks for. When \<open>sz\<close> has wrapped around, the struct or the
  arrays reach beyond the block: the arrays of the model have the elements that lie
  inside it, and an access to any other element is an invalid memory access, like
  every access outside an array.
\<close>

definition drm_atomic_helper_begin :: "drm_device \<Rightarrow> u32 \<Rightarrow> world \<Rightarrow> (addr option \<times> world) option" where
  "drm_atomic_helper_begin dev flgs w =
     (let nplanes = num_plane dev;
          ncrtcs = num_crtc dev;
          hdr = sizeof_helper_state dev;
          width = ptr_bytes dev;
          bytes = size_t_of_int dev (begin_sz dev);
          (ptr, w1) = kzalloc dev w
      in case ptr of
           None \<Rightarrow> None
         | Some a \<Rightarrow>
             if bytes < hdr then None
             else
               Some (Some a,
                     w1\<lparr>helper_mem := (helper_mem w1)(a \<mapsto>
                          \<lparr>flags = flgs,
                           planes = replicate (slots_inside bytes hdr width nplanes) None,
                           pstates = replicate
                             (slots_inside bytes (hdr + width * nplanes) width nplanes) None,
                           crtcs = replicate
                             (slots_inside bytes (hdr + 2 * width * nplanes) width ncrtcs) None,
                           cstates = replicate
                             (slots_inside bytes (hdr + 2 * width * nplanes + width * ncrtcs)
                                width ncrtcs) None\<rparr>)\<rparr>))"

subsection \<open>Staging\<close>

text \<open>
  \<open>*pstate = *plane->state\<close> reads the live block and writes the new one, so it needs
  both pointers valid; the result of \<open>kzalloc\<close> is not tested here either.
\<close>

definition drm_atomic_helper_init_plane_state ::
  "nat \<Rightarrow> addr option \<Rightarrow> addr option \<Rightarrow> world \<Rightarrow> world option" where
  "drm_atomic_helper_init_plane_state plane pstate state w =
     do {
       p \<leftarrow> pstate;
       live \<leftarrow> deref (pl_state (plane_objs w plane)) (pstate_mem w);
       Some (w\<lparr>pstate_mem := (pstate_mem w)(p \<mapsto> live\<lparr>ps_state := state\<rparr>)\<rparr>)
     }"

definition drm_atomic_helper_get_plane_state ::
  "drm_device \<Rightarrow> nat \<Rightarrow> addr option \<Rightarrow> world \<Rightarrow> (addr option \<times> world) option" where
  "drm_atomic_helper_get_plane_state dev plane state w =
     do {
       a \<leftarrow> state;
       st \<leftarrow> helper_mem w a;
       slot \<leftarrow> nth_opt (pstates st) plane;
       (case slot of
          Some s \<Rightarrow> Some (Some s, w)
        | None \<Rightarrow>
            do {
              let (pstate, w1) = kzalloc dev w;
              w2 \<leftarrow> drm_atomic_helper_init_plane_state plane pstate state w1;
              st2 \<leftarrow> helper_mem w2 a;
              markers \<leftarrow> list_write (planes st2) plane (Some plane);
              slots \<leftarrow> list_write (pstates st2) plane pstate;
              Some (pstate,
                    w2\<lparr>helper_mem := (helper_mem w2)(a \<mapsto>
                         st2\<lparr>planes := markers, pstates := slots\<rparr>)\<rparr>)
            })
     }"

definition drm_atomic_helper_init_crtc_state ::
  "nat \<Rightarrow> addr option \<Rightarrow> addr option \<Rightarrow> world \<Rightarrow> world option" where
  "drm_atomic_helper_init_crtc_state crtc cstate state w =
     do {
       p \<leftarrow> cstate;
       live \<leftarrow> deref (cr_state (crtc_objs w crtc)) (cstate_mem w);
       Some (w\<lparr>cstate_mem := (cstate_mem w)(p \<mapsto> live\<lparr>cs_state := state\<rparr>)\<rparr>)
     }"

definition drm_atomic_helper_get_crtc_state ::
  "drm_device \<Rightarrow> nat \<Rightarrow> addr option \<Rightarrow> world \<Rightarrow> (addr option \<times> world) option" where
  "drm_atomic_helper_get_crtc_state dev crtc state w =
     do {
       a \<leftarrow> state;
       st \<leftarrow> helper_mem w a;
       slot \<leftarrow> nth_opt (cstates st) crtc;
       (case slot of
          Some s \<Rightarrow> Some (Some s, w)
        | None \<Rightarrow>
            do {
              let (cstate, w1) = kzalloc dev w;
              w2 \<leftarrow> drm_atomic_helper_init_crtc_state crtc cstate state w1;
              st2 \<leftarrow> helper_mem w2 a;
              markers \<leftarrow> list_write (crtcs st2) crtc (Some crtc);
              slots \<leftarrow> list_write (cstates st2) crtc cstate;
              Some (cstate,
                    w2\<lparr>helper_mem := (helper_mem w2)(a \<mapsto>
                         st2\<lparr>crtcs := markers, cstates := slots\<rparr>)\<rparr>)
            })
     }"

subsection \<open>The property and event entry points\<close>

text \<open>
  \<open>drm_plane_set_property\<close> and \<open>drm_crtc_set_property\<close> are defined outside the two
  source files; the device gives their return value and the contents they leave in
  the shadow they are handed.
\<close>

definition drm_atomic_helper_plane_set_property ::
  "drm_device \<Rightarrow> nat \<Rightarrow> addr option \<Rightarrow> nat \<Rightarrow> 64 word \<Rightarrow> world \<Rightarrow> (int \<times> world) option" where
  "drm_atomic_helper_plane_set_property dev plane state property val w =
     do {
       (pstate, w1) \<leftarrow> drm_atomic_helper_get_plane_state dev plane state w;
       p \<leftarrow> pstate;
       ps \<leftarrow> pstate_mem w1 p;
       let (ret, ps') = plane_set_property dev plane ps property val;
       Some (ret, w1\<lparr>pstate_mem := (pstate_mem w1)(p \<mapsto> ps')\<rparr>)
     }"

definition drm_atomic_helper_crtc_set_property ::
  "drm_device \<Rightarrow> nat \<Rightarrow> addr option \<Rightarrow> nat \<Rightarrow> 64 word \<Rightarrow> world \<Rightarrow> (int \<times> world) option" where
  "drm_atomic_helper_crtc_set_property dev crtc state property val w =
     do {
       (cstate, w1) \<leftarrow> drm_atomic_helper_get_crtc_state dev crtc state w;
       p \<leftarrow> cstate;
       cs \<leftarrow> cstate_mem w1 p;
       let (ret, cs') = crtc_set_property dev crtc cs property val;
       Some (ret, w1\<lparr>cstate_mem := (cstate_mem w1)(p \<mapsto> cs')\<rparr>)
     }"

datatype drm_mode_object = Object_crtc nat | Object_other nat

definition drm_atomic_helper_set_event ::
  "drm_device \<Rightarrow> addr option \<Rightarrow> drm_mode_object \<Rightarrow> nat option \<Rightarrow> world \<Rightarrow> (int \<times> world) option" where
  "drm_atomic_helper_set_event dev state obj ev w =
     (case obj of
        Object_crtc crtc \<Rightarrow>
          do {
            (cstate, w1) \<leftarrow> drm_atomic_helper_get_crtc_state dev crtc state w;
            p \<leftarrow> cstate;
            cs \<leftarrow> cstate_mem w1 p;
            Some (0, w1\<lparr>cstate_mem := (cstate_mem w1)(p \<mapsto> cs\<lparr>cs_event := ev\<rparr>)\<rparr>)
          }
      | Object_other _ \<Rightarrow> Some (- EINVAL, w))"

subsection \<open>Check\<close>

text \<open>
  \<open>drm_atomic_check_plane_state\<close> of the header calls \<open>check_plane_state\<close> of the
  driver's helper table; the hook reads the shadow it is given.
\<close>

definition drm_atomic_check_plane_state ::
  "drm_device \<Rightarrow> nat \<Rightarrow> addr option \<Rightarrow> world \<Rightarrow> (int \<times> world) option" where
  "drm_atomic_check_plane_state dev plane pstate w =
     do {
       ps \<leftarrow> deref pstate (pstate_mem w);
       Some (check_plane_state dev plane ps, emit (Check_plane_state plane ps) w)
     }"

text \<open>
  The loop \<open>for (i = 0; i < nplanes; i++)\<close> of \<open>drm_atomic_helper_check\<close>, over the
  indices still to visit, with the current value of \<open>ret\<close>.
\<close>

fun check_planes :: "drm_device \<Rightarrow> addr option \<Rightarrow> nat list \<Rightarrow> int \<Rightarrow> world \<Rightarrow> (int \<times> world) option" where
  "check_planes dev state [] ret w = Some (ret, w)"
| "check_planes dev state (i # rest) ret w =
     do {
       a \<leftarrow> deref state (helper_mem w);
       marker \<leftarrow> nth_opt (planes a) i;
       (case marker of
          None \<Rightarrow> check_planes dev state rest ret w
        | Some plane \<Rightarrow>
            do {
              pstate \<leftarrow> nth_opt (pstates a) i;
              (r, w1) \<leftarrow> drm_atomic_check_plane_state dev plane pstate w;
              if r \<noteq> 0 then Some (r, w1) else check_planes dev state rest r w1
            })
     }"

definition drm_atomic_helper_check :: "drm_device \<Rightarrow> addr option \<Rightarrow> world \<Rightarrow> (int \<times> world) option" where
  "drm_atomic_helper_check dev state w = check_planes dev state [0..<num_plane dev] 0 w"

subsection \<open>Commit of one plane\<close>

definition swap_plane_state :: "nat \<Rightarrow> addr option \<Rightarrow> world \<Rightarrow> world option" where
  "swap_plane_state plane state w =
     do {
       a \<leftarrow> state;
       st \<leftarrow> helper_mem w a;
       slot \<leftarrow> nth_opt (pstates st) plane;
       let pl = plane_objs w plane;
       Some (w\<lparr>plane_objs := (plane_objs w)(plane := pl\<lparr>pl_state := slot, pl_propvals := slot\<rparr>),
               helper_mem := (helper_mem w)(a \<mapsto> st\<lparr>pstates := (pstates st)[plane := pl_state pl]\<rparr>)\<rparr>)
     }"

definition drm_atomic_helper_commit_plane_state ::
  "drm_device \<Rightarrow> nat \<Rightarrow> addr option \<Rightarrow> world \<Rightarrow> (int \<times> world) option" where
  "drm_atomic_helper_commit_plane_state dev plane pstate w =
     do {
       ps \<leftarrow> deref pstate (pstate_mem w);
       let fb = ps_fb ps;
       (case (ps_crtc ps, ps_fb ps) of
          (Some crtc, Some new_fb) \<Rightarrow>
            do {
              let ret = update_plane dev plane crtc new_fb
                          (ps_crtc_x ps, ps_crtc_y ps, ps_crtc_w ps, ps_crtc_h ps)
                          (ps_src_x ps, ps_src_y ps, ps_src_w ps, ps_src_h ps);
              let w1 = emit (Update_plane plane crtc new_fb
                          (ps_crtc_x ps, ps_crtc_y ps, ps_crtc_w ps, ps_crtc_h ps)
                          (ps_src_x ps, ps_src_y ps, ps_src_w ps, ps_src_h ps)) w;
              if ret = 0 then
                do {
                  live \<leftarrow> deref (pl_state (plane_objs w1 plane)) (pstate_mem w1);
                  let old_fb = ps_fb live;
                  w2 \<leftarrow> swap_plane_state plane (ps_state ps) w1;
                  Some (ret, unreference_if old_fb (unreference_if None w2))
                }
              else Some (ret, unreference_if None (unreference_if fb w1))
            }
        | _ \<Rightarrow>
            do {
              live \<leftarrow> deref (pl_state (plane_objs w plane)) (pstate_mem w);
              let old_fb = ps_fb live;
              let w1 = emit (Disable_plane plane) w;
              w2 \<leftarrow> swap_plane_state plane (ps_state ps) w1;
              Some (0, unreference_if old_fb (unreference_if fb w2))
            })
     }"

subsection \<open>Commit of one crtc\<close>

definition swap_crtc_state :: "nat \<Rightarrow> addr option \<Rightarrow> world \<Rightarrow> world option" where
  "swap_crtc_state crtc state w =
     do {
       a \<leftarrow> state;
       st \<leftarrow> helper_mem w a;
       slot \<leftarrow> nth_opt (cstates st) crtc;
       let cr = crtc_objs w crtc;
       Some (w\<lparr>crtc_objs := (crtc_objs w)(crtc := cr\<lparr>cr_state := slot, cr_propvals := slot\<rparr>),
               helper_mem := (helper_mem w)(a \<mapsto> st\<lparr>cstates := (cstates st)[crtc := cr_state cr]\<rparr>)\<rparr>)
     }"

text \<open>
  \<open>get_connector_set\<close>: the array is \<open>NULL\<close> when \<open>kmalloc\<close> fails. The array is freed
  by \<open>set_config\<close> before it returns, so it is a value here and not a block of the
  world; the allocation counts as one.
\<close>

definition get_connector_set ::
  "drm_device \<Rightarrow> u32 list \<Rightarrow> world \<Rightarrow> nat option list option \<times> world" where
  "get_connector_set dev connector_ids w =
     (let (ptr, w1) = kzalloc dev w
      in case ptr of
           None \<Rightarrow> (None, w1)
         | Some _ \<Rightarrow> (Some (map (connector_find dev) connector_ids), w1))"

definition set_config :: "drm_device \<Rightarrow> nat \<Rightarrow> addr option \<Rightarrow> world \<Rightarrow> (int \<times> world) option" where
  "set_config dev crtc cstate w =
     do {
       cs \<leftarrow> deref cstate (cstate_mem w);
       let fb = cs_fb cs;
       let (connector_set, w1) = get_connector_set dev (cs_connector_ids cs) w;
       let set = \<lparr>ms_crtc = crtc,
                  ms_x = cs_x cs,
                  ms_y = cs_y cs,
                  ms_mode = (if cs_mode_valid cs then Some (cs_mode cs) else None),
                  ms_num_connectors = length (cs_connector_ids cs),
                  ms_connectors = connector_set,
                  ms_fb = fb\<rparr>;
       let ret = mode_set_config_internal dev set;
       let w2 = emit (Mode_set_config_internal set) w1;
       w3 \<leftarrow> (if ret = 0 then swap_crtc_state crtc (cs_state cs) w2 else Some w2);
       Some (ret, unreference_if fb w3)
     }"

definition drm_atomic_helper_commit_crtc_state ::
  "drm_device \<Rightarrow> nat \<Rightarrow> addr option \<Rightarrow> world \<Rightarrow> (int \<times> world) option" where
  "drm_atomic_helper_commit_crtc_state dev crtc cstate w =
     do {
       cs \<leftarrow> deref cstate (cstate_mem w);
       let a = cs_state cs;
       if cs_set_config cs then set_config dev crtc cstate w
       else
         do {
           live \<leftarrow> deref (cr_state (crtc_objs w crtc)) (cstate_mem w);
           (case cs_fb cs of
              Some new_fb \<Rightarrow>
                if cs_fb live \<noteq> Some new_fb then
                  (case cr_fb (crtc_objs w crtc) of
                     None \<Rightarrow> Some (- EBUSY, w)
                   | Some bound \<Rightarrow>
                       (case page_flip dev crtc of
                          None \<Rightarrow> Some (- EINVAL, w)
                        | Some flip \<Rightarrow>
                            do {
                              st \<leftarrow> deref a (helper_mem w);
                              let ret = flip new_fb (cs_event cs) (flags st);
                              let w1 = emit (Page_flip crtc new_fb (cs_event cs) (flags st)) w;
                              if ret \<noteq> 0 then
                                Some (ret, unreference_if None (unreference_if (Some new_fb) w1))
                              else
                                do {
                                  w2 \<leftarrow> swap_crtc_state crtc (cs_state cs) w1;
                                  Some (ret, unreference_if (Some bound) (unreference_if None w2))
                                }
                            }))
                else Some (- EINVAL, w)
            | None \<Rightarrow>
                if cs_fb live \<noteq> None then
                  do {
                    let set = \<lparr>ms_crtc = crtc, ms_x = 0, ms_y = 0, ms_mode = None,
                               ms_num_connectors = 0, ms_connectors = None, ms_fb = None\<rparr>;
                    let old_fb = cs_fb live;
                    let ret = mode_set_config_internal dev set;
                    let w1 = emit (Mode_set_config_internal set) w;
                    w2 \<leftarrow> (if ret = 0 then swap_crtc_state crtc (cs_state cs) w1 else Some w1);
                    Some (ret, unreference_if old_fb (unreference_if None w2))
                  }
                else Some (- EINVAL, w))
         }
     }"

text \<open>
  \<open>drm_atomic_commit_plane_state\<close> of the header and its crtc counterpart call the
  commit functions of the helper table \<open>drm_atomic_helper_funcs\<close>.
\<close>

definition drm_atomic_commit_plane_state ::
  "drm_device \<Rightarrow> nat \<Rightarrow> addr option \<Rightarrow> world \<Rightarrow> (int \<times> world) option" where
  "drm_atomic_commit_plane_state = drm_atomic_helper_commit_plane_state"

definition drm_atomic_commit_crtc_state ::
  "drm_device \<Rightarrow> nat \<Rightarrow> addr option \<Rightarrow> world \<Rightarrow> (int \<times> world) option" where
  "drm_atomic_commit_crtc_state = drm_atomic_helper_commit_crtc_state"

subsection \<open>Commit\<close>

fun commit_planes :: "drm_device \<Rightarrow> addr option \<Rightarrow> nat list \<Rightarrow> int \<Rightarrow> world \<Rightarrow> (int \<times> world) option" where
  "commit_planes dev state [] ret w = Some (ret, w)"
| "commit_planes dev state (i # rest) ret w =
     do {
       a \<leftarrow> deref state (helper_mem w);
       marker \<leftarrow> nth_opt (planes a) i;
       (case marker of
          None \<Rightarrow> commit_planes dev state rest ret w
        | Some plane \<Rightarrow>
            do {
              pstate \<leftarrow> nth_opt (pstates a) i;
              (r, w1) \<leftarrow> drm_atomic_commit_plane_state dev plane pstate w;
              if r \<noteq> 0 then Some (r, w1) else commit_planes dev state rest r w1
            })
     }"

fun commit_crtcs :: "drm_device \<Rightarrow> addr option \<Rightarrow> nat list \<Rightarrow> int \<Rightarrow> world \<Rightarrow> (int \<times> world) option" where
  "commit_crtcs dev state [] ret w = Some (ret, w)"
| "commit_crtcs dev state (i # rest) ret w =
     do {
       a \<leftarrow> deref state (helper_mem w);
       marker \<leftarrow> nth_opt (crtcs a) i;
       (case marker of
          None \<Rightarrow> commit_crtcs dev state rest ret w
        | Some crtc \<Rightarrow>
            do {
              cstate \<leftarrow> nth_opt (cstates a) i;
              (r, w1) \<leftarrow> drm_atomic_commit_crtc_state dev crtc cstate w;
              if r \<noteq> 0 then Some (r, w1) else commit_crtcs dev state rest r w1
            })
     }"

text \<open>The second loop starts whatever the first one left in \<open>ret\<close>.\<close>

definition drm_atomic_helper_commit :: "drm_device \<Rightarrow> addr option \<Rightarrow> world \<Rightarrow> (int \<times> world) option" where
  "drm_atomic_helper_commit dev state w =
     do {
       (ret, w1) \<leftarrow> commit_planes dev state [0..<num_plane dev] 0 w;
       commit_crtcs dev state [0..<num_crtc dev] ret w1
     }"

subsection \<open>End\<close>

fun end_planes :: "addr option \<Rightarrow> nat list \<Rightarrow> world \<Rightarrow> world option" where
  "end_planes state [] w = Some w"
| "end_planes state (i # rest) w =
     do {
       a \<leftarrow> deref state (helper_mem w);
       slot \<leftarrow> nth_opt (pstates a) i;
       (case slot of
          None \<Rightarrow> end_planes state rest w
        | Some s \<Rightarrow>
            do {
              marker \<leftarrow> nth_opt (planes a) i;
              plane \<leftarrow> marker;
              l \<leftarrow> pl_state (plane_objs w plane);
              live \<leftarrow> pstate_mem w l;
              let w1 = w\<lparr>pstate_mem := (pstate_mem w)(l \<mapsto> live\<lparr>ps_state := None\<rparr>)\<rparr>;
              let w2 = w1\<lparr>pstate_mem := (pstate_mem w1)(s := None)\<rparr>;
              end_planes state rest w2
            })
     }"

fun end_crtcs :: "addr option \<Rightarrow> nat list \<Rightarrow> world \<Rightarrow> world option" where
  "end_crtcs state [] w = Some w"
| "end_crtcs state (i # rest) w =
     do {
       a \<leftarrow> deref state (helper_mem w);
       slot \<leftarrow> nth_opt (cstates a) i;
       (case slot of
          None \<Rightarrow> end_crtcs state rest w
        | Some s \<Rightarrow>
            do {
              marker \<leftarrow> nth_opt (crtcs a) i;
              crtc \<leftarrow> marker;
              l \<leftarrow> cr_state (crtc_objs w crtc);
              live \<leftarrow> cstate_mem w l;
              let w1 = w\<lparr>cstate_mem := (cstate_mem w)(l \<mapsto> live\<lparr>cs_state := None\<rparr>)\<rparr>;
              let w2 = w1\<lparr>cstate_mem := (cstate_mem w1)(s := None)\<rparr>;
              end_crtcs state rest w2
            })
     }"

text \<open>\<open>kfree(state)\<close> accepts \<open>NULL\<close>.\<close>

definition drm_atomic_helper_end :: "drm_device \<Rightarrow> addr option \<Rightarrow> world \<Rightarrow> world option" where
  "drm_atomic_helper_end dev state w =
     do {
       w1 \<leftarrow> end_planes state [0..<num_plane dev] w;
       w2 \<leftarrow> end_crtcs state [0..<num_crtc dev] w1;
       Some (case state of
               None \<Rightarrow> w2
             | Some a \<Rightarrow> w2\<lparr>helper_mem := (helper_mem w2)(a := None)\<rparr>)
     }"

subsection \<open>The states of one transaction\<close>

text \<open>
  Slot \<open>i\<close> of a transaction is either untouched (no marker, no shadow) or staged
  (the marker is resource \<open>i\<close>, the shadow slot is filled and the resource has a
  state block).
\<close>

definition slot_ok :: "nat \<Rightarrow> nat option \<Rightarrow> addr option \<Rightarrow> addr option \<Rightarrow> bool" where
  "slot_ok i marker slot live \<longleftrightarrow>
     (marker = None \<and> slot = None) \<or> (marker = Some i \<and> slot \<noteq> None \<and> live \<noteq> None)"

text \<open>
  The state blocks of \<open>n\<close> resources (\<open>live i\<close> is the block of resource \<open>i\<close>) and the
  blocks in the slots of the transaction are all different, and all come from
  allocations made so far.
\<close>

definition ptrs_sep :: "nat \<Rightarrow> nat \<Rightarrow> (nat \<Rightarrow> addr option) \<Rightarrow> addr option list \<Rightarrow> bool" where
  "ptrs_sep n bound live slots \<longleftrightarrow>
     (\<forall>i<n. \<forall>p. live i = Some p \<longrightarrow> p < bound) \<and>
     (\<forall>i<n. \<forall>p. slots ! i = Some p \<longrightarrow> p < bound) \<and>
     (\<forall>i<n. \<forall>j<n. \<forall>p. live i = Some p \<and> live j = Some p \<longrightarrow> i = j) \<and>
     (\<forall>i<n. \<forall>j<n. \<forall>p. slots ! i = Some p \<and> slots ! j = Some p \<longrightarrow> i = j) \<and>
     (\<forall>i<n. \<forall>j<n. \<forall>p. slots ! i = Some p \<longrightarrow> live j \<noteq> Some p)"

definition arrays_ok :: "drm_device \<Rightarrow> world \<Rightarrow> drm_atomic_helper_state \<Rightarrow> bool" where
  "arrays_ok dev w st \<longleftrightarrow>
     length (planes st) = num_plane dev \<and> length (pstates st) = num_plane dev \<and>
     length (crtcs st) = num_crtc dev \<and> length (cstates st) = num_crtc dev \<and>
     (\<forall>i<num_plane dev. slot_ok i (planes st ! i) (pstates st ! i) (pl_state (plane_objs w i))) \<and>
     (\<forall>i<num_crtc dev. slot_ok i (crtcs st ! i) (cstates st ! i) (cr_state (crtc_objs w i))) \<and>
     ptrs_sep (num_plane dev) (n_alloc w) (\<lambda>i. pl_state (plane_objs w i)) (pstates st) \<and>
     ptrs_sep (num_crtc dev) (n_alloc w) (\<lambda>i. cr_state (crtc_objs w i)) (cstates st)"

definition txn_inv :: "drm_device \<Rightarrow> addr \<Rightarrow> world \<Rightarrow> bool" where
  "txn_inv dev a w \<longleftrightarrow>
     (\<forall>b. helper_mem w b \<noteq> None \<longrightarrow> b = a) \<and>
     (case helper_mem w a of None \<Rightarrow> False | Some st \<Rightarrow> arrays_ok dev w st)"

text \<open>
  The counts of the device are such that the byte count of \<open>begin\<close> is below \<open>2 ^ 31\<close>:
  \<open>sz\<close> is the exact count, the block holds the struct and all four arrays.
\<close>

definition counts_fit :: "drm_device \<Rightarrow> bool" where
  "counts_fit dev \<longleftrightarrow>
     0 < ptr_bytes dev \<and>
     sizeof_helper_state dev + (ptr_bytes dev + ptr_bytes dev) * num_plane dev +
       (ptr_bytes dev + ptr_bytes dev) * num_crtc dev < 2 ^ 31"

text \<open>
  A world in which no transaction is open, and in which different resources have
  different state blocks, all allocated before, on a device whose counts fit.
\<close>

definition initial_world :: "drm_device \<Rightarrow> world \<Rightarrow> bool" where
  "initial_world dev w \<longleftrightarrow>
     counts_fit dev \<and>
     helper_mem w = Map.empty \<and>
     ptrs_sep (num_plane dev) (n_alloc w) (\<lambda>i. pl_state (plane_objs w i)) (replicate (num_plane dev) None) \<and>
     ptrs_sep (num_crtc dev) (n_alloc w) (\<lambda>i. cr_state (crtc_objs w i)) (replicate (num_crtc dev) None)"

text \<open>
  The worlds that one transaction \<open>a\<close> reaches: \<open>begin\<close> in an initial world, then any
  sequence of staging, property and event calls, checks and commits that return.
\<close>

inductive reachable :: "drm_device \<Rightarrow> addr \<Rightarrow> world \<Rightarrow> bool" for dev :: drm_device and a :: addr where
  reach_begin:
    "initial_world dev w0 \<Longrightarrow> drm_atomic_helper_begin dev flgs w0 = Some (Some a, w) \<Longrightarrow>
     reachable dev a w"
| reach_get_plane_state:
    "reachable dev a w \<Longrightarrow>
     drm_atomic_helper_get_plane_state dev plane (Some a) w = Some (p, w') \<Longrightarrow>
     reachable dev a w'"
| reach_get_crtc_state:
    "reachable dev a w \<Longrightarrow>
     drm_atomic_helper_get_crtc_state dev crtc (Some a) w = Some (p, w') \<Longrightarrow>
     reachable dev a w'"
| reach_plane_set_property:
    "reachable dev a w \<Longrightarrow>
     drm_atomic_helper_plane_set_property dev plane (Some a) property val w = Some (r, w') \<Longrightarrow>
     reachable dev a w'"
| reach_crtc_set_property:
    "reachable dev a w \<Longrightarrow>
     drm_atomic_helper_crtc_set_property dev crtc (Some a) property val w = Some (r, w') \<Longrightarrow>
     reachable dev a w'"
| reach_set_event:
    "reachable dev a w \<Longrightarrow>
     drm_atomic_helper_set_event dev (Some a) obj ev w = Some (r, w') \<Longrightarrow>
     reachable dev a w'"
| reach_check:
    "reachable dev a w \<Longrightarrow>
     drm_atomic_helper_check dev (Some a) w = Some (r, w') \<Longrightarrow>
     reachable dev a w'"
| reach_commit:
    "reachable dev a w \<Longrightarrow>
     drm_atomic_helper_commit dev (Some a) w = Some (r, w') \<Longrightarrow>
     reachable dev a w'"

text \<open>The live state of a resource: its object and the contents of its state block.\<close>

definition plane_live :: "world \<Rightarrow> nat \<Rightarrow> drm_plane \<times> drm_plane_state option" where
  "plane_live w i = (plane_objs w i, deref (pl_state (plane_objs w i)) (pstate_mem w))"

definition crtc_live :: "world \<Rightarrow> nat \<Rightarrow> drm_crtc \<times> drm_crtc_state option" where
  "crtc_live w i = (crtc_objs w i, deref (cr_state (crtc_objs w i)) (cstate_mem w))"


text \<open>
  Two worlds with the same objects and the same memory; they may differ in the
  reference counts, in the trace, and in the number of allocations made.
\<close>

definition same_mem :: "world \<Rightarrow> world \<Rightarrow> bool" where
  "same_mem w w' \<longleftrightarrow>
     plane_objs w' = plane_objs w \<and> crtc_objs w' = crtc_objs w \<and>
     pstate_mem w' = pstate_mem w \<and> cstate_mem w' = cstate_mem w \<and>
     helper_mem w' = helper_mem w \<and> n_alloc w \<le> n_alloc w'"

text \<open>
  What a commit may change: \<open>plane_frame a T w w'\<close> says that between \<open>w\<close> and \<open>w'\<close>
  only the planes in \<open>T\<close> and their slots in transaction \<open>a\<close> changed;
  \<open>crtc_frame\<close> says the same of crtcs.
\<close>

definition plane_frame :: "addr \<Rightarrow> nat set \<Rightarrow> world \<Rightarrow> world \<Rightarrow> bool" where
  "plane_frame a T w w' \<longleftrightarrow>
     pstate_mem w' = pstate_mem w \<and> cstate_mem w' = cstate_mem w \<and>
     crtc_objs w' = crtc_objs w \<and> n_alloc w \<le> n_alloc w' \<and>
     (\<forall>q. q \<notin> T \<longrightarrow> plane_objs w' q = plane_objs w q) \<and>
     (\<exists>st st'. helper_mem w a = Some st \<and> helper_mem w' a = Some st' \<and>
        planes st' = planes st \<and> crtcs st' = crtcs st \<and> cstates st' = cstates st \<and>
        flags st' = flags st \<and> (\<forall>q. q \<notin> T \<longrightarrow> pstates st' ! q = pstates st ! q))"

definition crtc_frame :: "addr \<Rightarrow> nat set \<Rightarrow> world \<Rightarrow> world \<Rightarrow> bool" where
  "crtc_frame a T w w' \<longleftrightarrow>
     pstate_mem w' = pstate_mem w \<and> cstate_mem w' = cstate_mem w \<and>
     plane_objs w' = plane_objs w \<and> n_alloc w \<le> n_alloc w' \<and>
     (\<forall>q. q \<notin> T \<longrightarrow> crtc_objs w' q = crtc_objs w q) \<and>
     (\<exists>st st'. helper_mem w a = Some st \<and> helper_mem w' a = Some st' \<and>
        planes st' = planes st \<and> crtcs st' = crtcs st \<and> pstates st' = pstates st \<and>
        flags st' = flags st \<and> (\<forall>q. q \<notin> T \<longrightarrow> cstates st' ! q = cstates st ! q))"


text \<open>The resources that transaction \<open>a\<close> has staged: those with a marker.\<close>

definition staged_planes :: "addr \<Rightarrow> world \<Rightarrow> nat set" where
  "staged_planes a w =
     {i. \<exists>st. helper_mem w a = Some st \<and> i < length (planes st) \<and> planes st ! i \<noteq> None}"

definition staged_crtcs :: "addr \<Rightarrow> world \<Rightarrow> nat set" where
  "staged_crtcs a w =
     {i. \<exists>st. helper_mem w a = Some st \<and> i < length (crtcs st) \<and> crtcs st ! i \<noteq> None}"


subsection \<open>What the specification says of validate\<close>

text \<open>
  The touched surfaces among the indices \<open>idx\<close>, in the order of \<open>idx\<close>, each with the
  contents of its shadow.
\<close>

definition touched_surfaces ::
  "drm_atomic_helper_state \<Rightarrow> (addr \<rightharpoonup> drm_plane_state) \<Rightarrow> nat list \<Rightarrow> (nat \<times> drm_plane_state) list" where
  "touched_surfaces st mem idx =
     List.map_filter
       (\<lambda>i. case planes st ! i of
               None \<Rightarrow> None
             | Some p \<Rightarrow> (case deref (pstates st ! i) mem of None \<Rightarrow> None | Some ps \<Rightarrow> Some (p, ps)))
       idx"

text \<open>The surfaces that are checked: up to and including the first whose check fails.\<close>

fun checked_prefix :: "drm_device \<Rightarrow> (nat \<times> drm_plane_state) list \<Rightarrow> (nat \<times> drm_plane_state) list" where
  "checked_prefix dev [] = []"
| "checked_prefix dev ((p, ps) # rest) =
     (p, ps) # (if check_plane_state dev p ps \<noteq> 0 then [] else checked_prefix dev rest)"

text \<open>The result of the first check that fails, 0 when none does.\<close>

fun first_error :: "drm_device \<Rightarrow> (nat \<times> drm_plane_state) list \<Rightarrow> int" where
  "first_error dev [] = 0"
| "first_error dev ((p, ps) # rest) =
     (if check_plane_state dev p ps \<noteq> 0 then check_plane_state dev p ps else first_error dev rest)"

definition check_event :: "nat \<times> drm_plane_state \<Rightarrow> event" where
  "check_event x = Check_plane_state (fst x) (snd x)"

text \<open>
  Crtc \<open>k\<close> is staged in transaction \<open>a\<close>, its shadow does not ask for a full
  configuration and holds the image of the live state.
\<close>

definition noop_touch :: "addr \<Rightarrow> nat \<Rightarrow> world \<Rightarrow> bool" where
  "noop_touch a k w \<longleftrightarrow>
     (\<exists>st cs live. helper_mem w a = Some st \<and> crtcs st ! k \<noteq> None \<and>
        deref (cstates st ! k) (cstate_mem w) = Some cs \<and> \<not> cs_set_config cs \<and>
        deref (cr_state (crtc_objs w k)) (cstate_mem w) = Some live \<and> cs_fb cs = cs_fb live)"

text \<open>
  The staging phase of transaction \<open>a\<close>: \<open>staging dev a w w'\<close> when \<open>w'\<close> follows \<open>w\<close>
  by staging, property and event calls and checks that return.
\<close>

inductive staging :: "drm_device \<Rightarrow> addr \<Rightarrow> world \<Rightarrow> world \<Rightarrow> bool" for dev :: drm_device and a :: addr where
  staging_refl:
    "staging dev a w w"
| staging_get_plane_state:
    "staging dev a w w1 \<Longrightarrow>
     drm_atomic_helper_get_plane_state dev plane (Some a) w1 = Some (p, w2) \<Longrightarrow>
     staging dev a w w2"
| staging_get_crtc_state:
    "staging dev a w w1 \<Longrightarrow>
     drm_atomic_helper_get_crtc_state dev crtc (Some a) w1 = Some (p, w2) \<Longrightarrow>
     staging dev a w w2"
| staging_plane_set_property:
    "staging dev a w w1 \<Longrightarrow>
     drm_atomic_helper_plane_set_property dev plane (Some a) property val w1 = Some (r, w2) \<Longrightarrow>
     staging dev a w w2"
| staging_crtc_set_property:
    "staging dev a w w1 \<Longrightarrow>
     drm_atomic_helper_crtc_set_property dev crtc (Some a) property val w1 = Some (r, w2) \<Longrightarrow>
     staging dev a w w2"
| staging_set_event:
    "staging dev a w w1 \<Longrightarrow>
     drm_atomic_helper_set_event dev (Some a) obj ev w1 = Some (r, w2) \<Longrightarrow>
     staging dev a w w2"
| staging_check:
    "staging dev a w w1 \<Longrightarrow>
     drm_atomic_helper_check dev (Some a) w1 = Some (r, w2) \<Longrightarrow>
     staging dev a w w2"

text \<open>The filled slots of \<open>st\<close> are filled with the same blocks in \<open>st'\<close>.\<close>

definition slots_kept :: "drm_atomic_helper_state \<Rightarrow> drm_atomic_helper_state \<Rightarrow> bool" where
  "slots_kept st st' \<longleftrightarrow>
     length (pstates st') = length (pstates st) \<and> length (cstates st') = length (cstates st) \<and>
     (\<forall>q s. q < length (pstates st) \<and> pstates st ! q = Some s \<longrightarrow> pstates st' ! q = Some s) \<and>
     (\<forall>q s. q < length (cstates st) \<and> cstates st ! q = Some s \<longrightarrow> cstates st' ! q = Some s)"

subsection \<open>A concrete device and concrete transactions\<close>

text \<open>
  A device with three planes and two crtcs and 4-byte pointers. The check of plane
  1 fails, the update of plane 2 fails, crtc 0 can flip (the flip to image 9
  fails), crtc 1 has no flip primitive. Property 0 of a plane or crtc is its image
  (0 for none), property 1 of a plane is its crtc, any other property of a plane
  is its horizontal position on the crtc.
\<close>

definition dev_demo :: drm_device where
  "dev_demo =
     \<lparr>num_plane = 3,
      num_crtc = 2,
      ptr_bytes = 4,
      alloc_ok = (\<lambda>n. True),
      check_plane_state = (\<lambda>p ps. if p = 1 then - EINVAL else 0),
      check_crtc_state = (\<lambda>c cs. 0),
      update_plane = (\<lambda>p c fb dst src. if p = 2 then - EINVAL else 0),
      page_flip = (\<lambda>c. if c = 0 then Some (\<lambda>fb ev fl. if fb = 9 then - EBUSY else 0) else None),
      mode_set_config_internal = (\<lambda>set. 0),
      connector_find = (\<lambda>n. Some (unat n)),
      plane_set_property =
        (\<lambda>p ps property val.
           (0, if property = 0 then ps\<lparr>ps_fb := (if val = 0 then None else Some (unat val))\<rparr>
               else if property = 1 then ps\<lparr>ps_crtc := Some (unat val)\<rparr>
               else ps\<lparr>ps_crtc_x := ucast val\<rparr>)),
      crtc_set_property =
        (\<lambda>c cs property val. (0, cs\<lparr>cs_fb := (if val = 0 then None else Some (unat val))\<rparr>))\<rparr>"

text \<open>The state blocks of the planes and of crtc 0 before any transaction.\<close>

definition boot_plane_state :: drm_plane_state where
  "boot_plane_state =
     \<lparr>ps_crtc = Some 0, ps_fb = Some 1,
      ps_crtc_x = 0, ps_crtc_y = 0, ps_crtc_w = 0, ps_crtc_h = 0,
      ps_src_x = 0, ps_src_y = 0, ps_src_w = 0, ps_src_h = 0,
      ps_propvals = [], ps_state = None\<rparr>"

definition boot_crtc_state :: drm_crtc_state where
  "boot_crtc_state =
     \<lparr>cs_fb = Some 1, cs_set_config = False, cs_event = None, cs_x = 0, cs_y = 0,
      cs_mode_valid = False, cs_mode = 0, cs_connector_ids = [], cs_propvals = [],
      cs_state = None\<rparr>"

text \<open>
  The world before any transaction: plane \<open>i\<close> has its state block at address \<open>i\<close>,
  shows image 1 on crtc 0; crtc 0 shows image 1, crtc 1 is unbound.
\<close>

definition w_boot :: world where
  "w_boot =
     \<lparr>plane_objs = (\<lambda>i. \<lparr>pl_state = Some i, pl_propvals = Some i\<rparr>),
      crtc_objs = (\<lambda>i. \<lparr>cr_state = Some i, cr_fb = (if i = 0 then Some 1 else None),
                         cr_propvals = Some i\<rparr>),
      pstate_mem = (\<lambda>a. if a < 3 then Some boot_plane_state else None),
      cstate_mem = (\<lambda>a. if a < 2
                         then Some (boot_crtc_state\<lparr>cs_fb := (if a = 0 then Some 1 else None)\<rparr>)
                         else None),
      helper_mem = Map.empty,
      fb_refcount = (\<lambda>fb. 1),
      n_alloc = 3,
      trace = []\<rparr>"

text \<open>The world after a call that returned.\<close>

definition after :: "('r \<times> world) option \<Rightarrow> world" where
  "after x = snd (the x)"

text \<open>\<open>begin\<close> in the boot world returns the transaction at address 3.\<close>

definition w_begun :: world where
  "w_begun = after (drm_atomic_helper_begin dev_demo 0 w_boot)"

text \<open>Plane 0 is given image 5, then crtc 0 is staged without a change.\<close>

definition w_plane0 :: world where
  "w_plane0 = after (drm_atomic_helper_plane_set_property dev_demo 0 (Some 3) 0 5 w_begun)"

definition w_staged :: world where
  "w_staged = after (drm_atomic_helper_get_crtc_state dev_demo 0 (Some 3) w_plane0)"

text \<open>After plane 0, planes 1 and 2 are staged too: all three surfaces are touched.\<close>

definition w_plane01 :: world where
  "w_plane01 = after (drm_atomic_helper_get_plane_state dev_demo 1 (Some 3) w_plane0)"

definition w_plane012 :: world where
  "w_plane012 = after (drm_atomic_helper_get_plane_state dev_demo 2 (Some 3) w_plane01)"

text \<open>Plane 2 is given image 5 and crtc 0 image 6: the update fails, the flip succeeds.\<close>

definition w_plane2 :: world where
  "w_plane2 = after (drm_atomic_helper_plane_set_property dev_demo 2 (Some 3) 0 5 w_begun)"

definition w_mixed :: world where
  "w_mixed = after (drm_atomic_helper_crtc_set_property dev_demo 0 (Some 3) 0 6 w_plane2)"

text \<open>A device whose allocations all fail.\<close>

definition dev_oom :: drm_device where
  "dev_oom = dev_demo\<lparr>alloc_ok := (\<lambda>n. False)\<rparr>"


text \<open>The commit of the transaction that staged plane 0 and crtc 0.\<close>

definition w_committed :: world where
  "w_committed = after (drm_atomic_helper_commit dev_demo (Some 3) w_staged)"

text \<open>Crtc 1, which has no bound image, is given image 6.\<close>

definition w_crtc1 :: world where
  "w_crtc1 = after (drm_atomic_helper_crtc_set_property dev_demo 1 (Some 3) 0 6 w_begun)"

text \<open>Crtc 0 is given image 9, to which the flip fails.\<close>

definition w_flip9 :: world where
  "w_flip9 = after (drm_atomic_helper_crtc_set_property dev_demo 0 (Some 3) 0 9 w_begun)"

text \<open>The end of that transaction, after its commit.\<close>

definition w_ended :: world where
  "w_ended = the (drm_atomic_helper_end dev_demo (Some 3) w_committed)"

text \<open>After plane 0 and crtc 0, plane 1 is staged.\<close>

definition w_staged1 :: world where
  "w_staged1 = after (drm_atomic_helper_get_plane_state dev_demo 1 (Some 3) w_staged)"

text \<open>Plane 0 is moved to horizontal position 100; its image and crtc are not set.\<close>

definition w_moved :: world where
  "w_moved = after (drm_atomic_helper_plane_set_property dev_demo 0 (Some 3) 2 100 w_begun)"

text \<open>
  A device with 8-byte pointers whose plane count makes the byte count of \<open>begin\<close>
  wrap around: \<open>40 + 16 * 2 ^ 28 + 16 * 2\<close> is 72 modulo \<open>2 ^ 32\<close>.
\<close>

definition dev_huge :: drm_device where
  "dev_huge = dev_demo\<lparr>num_plane := 2 ^ 28, ptr_bytes := 8\<rparr>"

subsection \<open>Reading memory, traces and reference counts\<close>

lemma deref_simps [simp]: "deref None mem = None" "deref (Some a) mem = mem a"
  by (simp_all add: deref_def)

lemma nth_opt_in_range [simp]: "i < length xs \<Longrightarrow> nth_opt xs i = Some (xs ! i)"
  by (simp add: nth_opt_def)

lemma list_write_in_range [simp]: "i < length xs \<Longrightarrow> list_write xs i v = Some (xs[i := v])"
  by (simp add: list_write_def)

lemma upt_0_3: "[0..<3] = [0, 1, 2]"
  by (simp add: upt_rec)

lemma upt_0_2: "[0..<2] = [0, 1]"
  by (simp add: upt_rec)

lemma all_less_3: "(\<forall>i<(3::nat). P i) \<longleftrightarrow> P 0 \<and> P 1 \<and> P 2"
  by (simp add: numeral_3_eq_3 numeral_2_eq_2 All_less_Suc conj_ac)

lemma emit_fields [simp]:
  "plane_objs (emit e w) = plane_objs w"
  "crtc_objs (emit e w) = crtc_objs w"
  "pstate_mem (emit e w) = pstate_mem w"
  "cstate_mem (emit e w) = cstate_mem w"
  "helper_mem (emit e w) = helper_mem w"
  "fb_refcount (emit e w) = fb_refcount w"
  "n_alloc (emit e w) = n_alloc w"
  "trace (emit e w) = trace w @ [e]"
  by (simp_all add: emit_def)

lemma unreference_if_fields [simp]:
  "plane_objs (unreference_if fb w) = plane_objs w"
  "crtc_objs (unreference_if fb w) = crtc_objs w"
  "pstate_mem (unreference_if fb w) = pstate_mem w"
  "cstate_mem (unreference_if fb w) = cstate_mem w"
  "helper_mem (unreference_if fb w) = helper_mem w"
  "n_alloc (unreference_if fb w) = n_alloc w"
  by (simp_all add: unreference_if_def drm_framebuffer_unreference_def split: option.splits)

lemma unreference_if_None [simp]: "unreference_if None w = w"
  by (simp add: unreference_if_def)

lemma unreference_if_Some [simp]:
  "fb_refcount (unreference_if (Some f) w) = (fb_refcount w)(f := fb_refcount w f - 1)"
  "trace (unreference_if (Some f) w) = trace w @ [Framebuffer_unreference f]"
  by (simp_all add: unreference_if_def drm_framebuffer_unreference_def)

lemma kzalloc_fields [simp]:
  "plane_objs (snd (kzalloc dev w)) = plane_objs w"
  "crtc_objs (snd (kzalloc dev w)) = crtc_objs w"
  "pstate_mem (snd (kzalloc dev w)) = pstate_mem w"
  "cstate_mem (snd (kzalloc dev w)) = cstate_mem w"
  "helper_mem (snd (kzalloc dev w)) = helper_mem w"
  "fb_refcount (snd (kzalloc dev w)) = fb_refcount w"
  "n_alloc (snd (kzalloc dev w)) = Suc (n_alloc w)"
  "trace (snd (kzalloc dev w)) = trace w"
  "fst (kzalloc dev w) = (if alloc_ok dev (n_alloc w) then Some (n_alloc w) else None)"
  by (simp_all add: kzalloc_def)

subsection \<open>The invariant of a transaction\<close>

lemma ptrs_sep_swap:
  assumes sep: "ptrs_sep n b live slots" and p: "p < n" and len: "length slots = n"
  shows "ptrs_sep n b (live(p := slots ! p)) (slots[p := live p])"
proof -
  from sep have lb: "\<And>i q. i < n \<Longrightarrow> live i = Some q \<Longrightarrow> q < b"
    and sb: "\<And>i q. i < n \<Longrightarrow> slots ! i = Some q \<Longrightarrow> q < b"
    and ll: "\<And>i j q. i < n \<Longrightarrow> j < n \<Longrightarrow> live i = Some q \<Longrightarrow> live j = Some q \<Longrightarrow> i = j"
    and ss: "\<And>i j q. i < n \<Longrightarrow> j < n \<Longrightarrow> slots ! i = Some q \<Longrightarrow> slots ! j = Some q \<Longrightarrow> i = j"
    and sl: "\<And>i j q. i < n \<Longrightarrow> j < n \<Longrightarrow> slots ! i = Some q \<Longrightarrow> live j \<noteq> Some q"
    unfolding ptrs_sep_def by blast+
  let ?live = "live(p := slots ! p)" and ?slots = "slots[p := live p]"
  have nth: "\<And>i. i < n \<Longrightarrow> ?slots ! i = (if i = p then live p else slots ! i)"
    using len by (simp add: nth_list_update)
  have c1: "\<forall>i<n. \<forall>q. ?live i = Some q \<longrightarrow> q < b"
    using lb sb p by (simp split: if_splits)
  have c2: "\<forall>i<n. \<forall>q. ?slots ! i = Some q \<longrightarrow> q < b"
    using lb sb p by (simp add: nth split: if_splits)
  have c3: "\<forall>i<n. \<forall>j<n. \<forall>q. ?live i = Some q \<and> ?live j = Some q \<longrightarrow> i = j"
  proof (intro allI impI)
    fix i j q assume i: "i < n" and j: "j < n" and e: "?live i = Some q \<and> ?live j = Some q"
    show "i = j"
    proof (cases "i = p")
      case True
      with e sl [OF p j, of q] show ?thesis by (cases "j = p") auto
    next
      case False
      with e sl [OF p i, of q] ll [OF i j, of q] show ?thesis by (cases "j = p") auto
    qed
  qed
  have c4: "\<forall>i<n. \<forall>j<n. \<forall>q. ?slots ! i = Some q \<and> ?slots ! j = Some q \<longrightarrow> i = j"
  proof (intro allI impI)
    fix i j q assume i: "i < n" and j: "j < n" and e: "?slots ! i = Some q \<and> ?slots ! j = Some q"
    show "i = j"
    proof (cases "i = p")
      case True
      with e sl [OF j p, of q] j p show ?thesis by (cases "j = p") (auto simp: nth)
    next
      case False
      with e sl [OF i p, of q] ss [OF i j, of q] i j p show ?thesis by (cases "j = p") (auto simp: nth)
    qed
  qed
  have c5: "\<forall>i<n. \<forall>j<n. \<forall>q. ?slots ! i = Some q \<longrightarrow> ?live j \<noteq> Some q"
  proof (intro allI impI)
    fix i j q assume i: "i < n" and j: "j < n" and e: "?slots ! i = Some q"
    show "?live j \<noteq> Some q"
    proof (cases "i = p")
      case ip: True
      show ?thesis
      proof (cases "j = p")
        case True
        with ip e sl [OF p p, of q] p show ?thesis by (auto simp: nth)
      next
        case False
        with ip e ll [OF p j, of q] p show ?thesis by (auto simp: nth)
      qed
    next
      case ip: False
      show ?thesis
      proof (cases "j = p")
        case True
        with ip e ss [OF i p, of q] i show ?thesis by (auto simp: nth)
      next
        case False
        with ip e sl [OF i j, of q] i show ?thesis by (auto simp: nth)
      qed
    qed
  qed
  from c1 c2 c3 c4 c5 show ?thesis unfolding ptrs_sep_def by blast
qed

lemma ptrs_sep_stage:
  assumes "ptrs_sep n b live slots" and "p < n" and "length slots = n"
  shows "ptrs_sep n (Suc b) live (slots[p := Some b])"
  using assms unfolding ptrs_sep_def
  by (auto simp: nth_list_update less_Suc_eq split: if_splits)

lemma ptrs_sep_mono:
  assumes "ptrs_sep n b live slots" and "b \<le> b'"
  shows "ptrs_sep n b' live slots"
  using assms unfolding ptrs_sep_def by (meson less_le_trans)

lemma ptrs_sep_Suc:
  assumes "ptrs_sep n b live slots"
  shows "ptrs_sep n (Suc b) live slots"
  using assms by (rule ptrs_sep_mono) simp

lemma txn_inv_cong:
  assumes "helper_mem w' = helper_mem w" and "plane_objs w' = plane_objs w"
    and "crtc_objs w' = crtc_objs w" and "n_alloc w' = n_alloc w"
  shows "txn_inv dev a w' = txn_inv dev a w"
  using assms by (simp add: txn_inv_def arrays_ok_def split: option.splits)

lemma txn_inv_emit [simp]: "txn_inv dev a (emit e w) = txn_inv dev a w"
  by (rule txn_inv_cong) simp_all

lemma txn_inv_unreference_if [simp]: "txn_inv dev a (unreference_if fb w) = txn_inv dev a w"
  by (rule txn_inv_cong) simp_all

lemma txn_inv_pstate_mem [simp]: "txn_inv dev a (w\<lparr>pstate_mem := m\<rparr>) = txn_inv dev a w"
  by (rule txn_inv_cong) simp_all

lemma txn_inv_cstate_mem [simp]: "txn_inv dev a (w\<lparr>cstate_mem := m\<rparr>) = txn_inv dev a w"
  by (rule txn_inv_cong) simp_all

lemma sint_of_nat_small:
  assumes "n < 2 ^ 31"
  shows "sint (of_nat n :: 32 word) = int n"
  using assms
  by (simp add: sint_uint unsigned_of_nat take_bit_nat_eq_self signed_take_bit_int_eq_self)

lemma slots_inside_fit:
  assumes "0 < width" and "offset + width * n \<le> bytes"
  shows "slots_inside bytes offset width n = n"
proof -
  from assms(2) have "width * n \<le> bytes - offset" by simp
  then have "width * n div width \<le> (bytes - offset) div width" by (rule div_le_mono)
  with assms(1) show ?thesis by (simp add: slots_inside_def)
qed

text \<open>When the counts fit, the block of \<open>begin\<close> holds the struct and the whole arrays.\<close>

lemma begin_counts_fit:
  assumes fit: "counts_fit dev"
  shows "drm_atomic_helper_begin dev flgs w =
           (case fst (kzalloc dev w) of
              None \<Rightarrow> None
            | Some a \<Rightarrow>
                Some (Some a,
                      (snd (kzalloc dev w))\<lparr>helper_mem := (helper_mem w)(a \<mapsto>
                         \<lparr>flags = flgs,
                          planes = replicate (num_plane dev) None,
                          pstates = replicate (num_plane dev) None,
                          crtcs = replicate (num_crtc dev) None,
                          cstates = replicate (num_crtc dev) None\<rparr>)\<rparr>))"
proof -
  define width where "width = ptr_bytes dev"
  define hdr where "hdr = sizeof_helper_state dev"
  define need where "need = hdr + (width + width) * num_plane dev + (width + width) * num_crtc dev"
  from fit have width: "0 < width" and need: "need < 2 ^ 31"
    by (simp_all add: counts_fit_def width_def hdr_def need_def)
  have "begin_sz dev = of_nat need"
    by (simp add: begin_sz_def need_def hdr_def width_def)
  with need have bytes: "size_t_of_int dev (begin_sz dev) = need"
    by (simp add: size_t_of_int_def sint_of_nat_small)
  have s1: "slots_inside need hdr width (num_plane dev) = num_plane dev"
    using width by (rule slots_inside_fit) (simp add: need_def algebra_simps)
  have s2: "slots_inside need (hdr + width * num_plane dev) width (num_plane dev) = num_plane dev"
    using width by (rule slots_inside_fit) (simp add: need_def algebra_simps)
  have s3: "slots_inside need (hdr + 2 * width * num_plane dev) width (num_crtc dev) = num_crtc dev"
    using width by (rule slots_inside_fit) (simp add: need_def algebra_simps)
  have s4: "slots_inside need (hdr + 2 * width * num_plane dev + width * num_crtc dev) width
              (num_crtc dev) = num_crtc dev"
    using width by (rule slots_inside_fit) (simp add: need_def algebra_simps)
  have "\<not> need < hdr" by (simp add: need_def)
  with bytes s1 s2 s3 s4 show ?thesis
    by (cases "alloc_ok dev (n_alloc w)")
       (simp_all add: drm_atomic_helper_begin_def Let_def kzalloc_def
          hdr_def [symmetric] width_def [symmetric])
qed

lemma txn_inv_begin:
  assumes "initial_world dev w0" and "drm_atomic_helper_begin dev flgs w0 = Some (Some a, w)"
  shows "txn_inv dev a w"
proof -
  from assms(1) have fit: "counts_fit dev" by (simp add: initial_world_def)
  from assms show ?thesis
    unfolding begin_counts_fit [OF fit]
    by (auto simp: kzalloc_def initial_world_def txn_inv_def arrays_ok_def slot_ok_def
        split: if_splits intro: ptrs_sep_Suc)
qed

lemma slot_ok_swap:
  assumes "\<forall>i<n. slot_ok i (markers ! i) (slots ! i) (live i)"
    and "p < n" and "markers ! p = Some p" and "length slots = n"
  shows "\<forall>i<n. slot_ok i (markers ! i) (slots[p := live p] ! i) ((live(p := slots ! p)) i)"
  using assms by (auto simp: slot_ok_def nth_list_update)

lemma slot_ok_stage:
  assumes "\<forall>i<n. slot_ok i (markers ! i) (slots ! i) (live i)"
    and "p < n" and "length slots = n" and "length markers = n" and "live p \<noteq> None"
  shows "\<forall>i<n. slot_ok i (markers[p := Some p] ! i) (slots[p := Some s] ! i) (live i)"
  using assms by (auto simp: slot_ok_def nth_list_update)

lemma txn_inv_swap_plane:
  assumes inv: "txn_inv dev a w" and st: "helper_mem w a = Some st"
    and staged: "planes st ! p = Some p" and p: "p < num_plane dev"
    and sw: "swap_plane_state p bk w = Some w'"
  shows "txn_inv dev a w'"
proof -
  from inv st have ok: "arrays_ok dev w st" and only: "\<And>b. helper_mem w b \<noteq> None \<Longrightarrow> b = a"
    by (auto simp: txn_inv_def)
  from sw obtain b st' where bk: "bk = Some b" and hb: "helper_mem w b = Some st'"
    by (auto simp: swap_plane_state_def split: Option.bind_splits)
  with only have "b = a" by auto
  from ok p have len: "length (pstates st) = num_plane dev" by (simp add: arrays_ok_def)
  define st2 where "st2 = st\<lparr>pstates := (pstates st)[p := pl_state (plane_objs w p)]\<rparr>"
  from sw bk \<open>b = a\<close> st len p
  have w': "w' = w\<lparr>plane_objs := (plane_objs w)(p := (plane_objs w p)\<lparr>pl_state := pstates st ! p, pl_propvals := pstates st ! p\<rparr>),
               helper_mem := (helper_mem w)(a \<mapsto> st2)\<rparr>"
    by (simp add: swap_plane_state_def Let_def st2_def)
  have live': "(\<lambda>i. pl_state (plane_objs w' i)) = (\<lambda>i. pl_state (plane_objs w i))(p := pstates st ! p)"
    by (rule ext) (simp add: w')
  have same: "crtc_objs w' = crtc_objs w" "n_alloc w' = n_alloc w" "helper_mem w' = (helper_mem w)(a \<mapsto> st2)"
    by (simp_all add: w')
  have st2: "planes st2 = planes st" "crtcs st2 = crtcs st" "cstates st2 = cstates st"
    "pstates st2 = (pstates st)[p := pl_state (plane_objs w p)]"
    by (simp_all add: st2_def)
  have a1: "\<forall>i<num_plane dev. slot_ok i (planes st2 ! i) (pstates st2 ! i) (pl_state (plane_objs w' i))"
    using slot_ok_swap [of "num_plane dev" "planes st" "pstates st" "\<lambda>i. pl_state (plane_objs w i)" p]
      ok p staged len
    by (simp add: st2 fun_cong [OF live'] arrays_ok_def)
  have a2: "ptrs_sep (num_plane dev) (n_alloc w') (\<lambda>i. pl_state (plane_objs w' i)) (pstates st2)"
    unfolding live' same st2 using ok p len by (intro ptrs_sep_swap) (simp_all add: arrays_ok_def)
  have "arrays_ok dev w' st2"
    unfolding arrays_ok_def using a1 a2 ok by (simp add: same st2 arrays_ok_def)
  then show ?thesis using only by (auto simp: txn_inv_def same)
qed

lemma txn_inv_swap_crtc:
  assumes inv: "txn_inv dev a w" and st: "helper_mem w a = Some st"
    and staged: "crtcs st ! p = Some p" and p: "p < num_crtc dev"
    and sw: "swap_crtc_state p bk w = Some w'"
  shows "txn_inv dev a w'"
proof -
  from inv st have ok: "arrays_ok dev w st" and only: "\<And>b. helper_mem w b \<noteq> None \<Longrightarrow> b = a"
    by (auto simp: txn_inv_def)
  from sw obtain b st' where bk: "bk = Some b" and hb: "helper_mem w b = Some st'"
    by (auto simp: swap_crtc_state_def split: Option.bind_splits)
  with only have "b = a" by auto
  from ok p have len: "length (cstates st) = num_crtc dev" by (simp add: arrays_ok_def)
  define st2 where "st2 = st\<lparr>cstates := (cstates st)[p := cr_state (crtc_objs w p)]\<rparr>"
  from sw bk \<open>b = a\<close> st len p
  have w': "w' = w\<lparr>crtc_objs := (crtc_objs w)(p := (crtc_objs w p)\<lparr>cr_state := cstates st ! p, cr_propvals := cstates st ! p\<rparr>),
               helper_mem := (helper_mem w)(a \<mapsto> st2)\<rparr>"
    by (simp add: swap_crtc_state_def Let_def st2_def)
  have live': "(\<lambda>i. cr_state (crtc_objs w' i)) = (\<lambda>i. cr_state (crtc_objs w i))(p := cstates st ! p)"
    by (rule ext) (simp add: w')
  have same: "plane_objs w' = plane_objs w" "n_alloc w' = n_alloc w" "helper_mem w' = (helper_mem w)(a \<mapsto> st2)"
    by (simp_all add: w')
  have st2: "planes st2 = planes st" "crtcs st2 = crtcs st" "pstates st2 = pstates st"
    "cstates st2 = (cstates st)[p := cr_state (crtc_objs w p)]"
    by (simp_all add: st2_def)
  have a1: "\<forall>i<num_crtc dev. slot_ok i (crtcs st2 ! i) (cstates st2 ! i) (cr_state (crtc_objs w' i))"
    using slot_ok_swap [of "num_crtc dev" "crtcs st" "cstates st" "\<lambda>i. cr_state (crtc_objs w i)" p]
      ok p staged len
    by (simp add: st2 fun_cong [OF live'] arrays_ok_def)
  have a2: "ptrs_sep (num_crtc dev) (n_alloc w') (\<lambda>i. cr_state (crtc_objs w' i)) (cstates st2)"
    unfolding live' same st2 using ok p len by (intro ptrs_sep_swap) (simp_all add: arrays_ok_def)
  have "arrays_ok dev w' st2"
    unfolding arrays_ok_def using a1 a2 ok by (simp add: same st2 arrays_ok_def)
  then show ?thesis using only by (auto simp: txn_inv_def same)
qed

lemma get_plane_state_staged:
  assumes "helper_mem w a = Some st" and "p < length (pstates st)" and "pstates st ! p = Some s"
  shows "drm_atomic_helper_get_plane_state dev p (Some a) w = Some (Some s, w)"
  using assms by (simp add: drm_atomic_helper_get_plane_state_def)

lemma get_plane_state_fresh:
  assumes st: "helper_mem w a = Some st" and p: "p < length (pstates st)"
    and empty: "pstates st ! p = None"
    and get: "drm_atomic_helper_get_plane_state dev p (Some a) w = Some (r, w')"
  shows "\<exists>l live. alloc_ok dev (n_alloc w) \<and> r = Some (n_alloc w) \<and>
           pl_state (plane_objs w p) = Some l \<and> pstate_mem w l = Some live \<and>
           pstate_mem w' = (pstate_mem w)(n_alloc w \<mapsto> live\<lparr>ps_state := Some a\<rparr>) \<and>
           helper_mem w' = (helper_mem w)(a \<mapsto> st\<lparr>planes := (planes st)[p := Some p],
                                                    pstates := (pstates st)[p := Some (n_alloc w)]\<rparr>) \<and>
           n_alloc w' = Suc (n_alloc w) \<and> plane_objs w' = plane_objs w \<and>
           crtc_objs w' = crtc_objs w \<and> cstate_mem w' = cstate_mem w \<and>
           fb_refcount w' = fb_refcount w \<and> trace w' = trace w"
  using assms
  by (auto simp: drm_atomic_helper_get_plane_state_def drm_atomic_helper_init_plane_state_def
        kzalloc_def deref_def Let_def list_write_def
      split: Option.bind_splits if_splits option.splits)

lemma get_crtc_state_staged:
  assumes "helper_mem w a = Some st" and "p < length (cstates st)" and "cstates st ! p = Some s"
  shows "drm_atomic_helper_get_crtc_state dev p (Some a) w = Some (Some s, w)"
  using assms by (simp add: drm_atomic_helper_get_crtc_state_def)

lemma get_crtc_state_fresh:
  assumes st: "helper_mem w a = Some st" and p: "p < length (cstates st)"
    and empty: "cstates st ! p = None"
    and get: "drm_atomic_helper_get_crtc_state dev p (Some a) w = Some (r, w')"
  shows "\<exists>l live. alloc_ok dev (n_alloc w) \<and> r = Some (n_alloc w) \<and>
           cr_state (crtc_objs w p) = Some l \<and> cstate_mem w l = Some live \<and>
           cstate_mem w' = (cstate_mem w)(n_alloc w \<mapsto> live\<lparr>cs_state := Some a\<rparr>) \<and>
           helper_mem w' = (helper_mem w)(a \<mapsto> st\<lparr>crtcs := (crtcs st)[p := Some p],
                                                    cstates := (cstates st)[p := Some (n_alloc w)]\<rparr>) \<and>
           n_alloc w' = Suc (n_alloc w) \<and> plane_objs w' = plane_objs w \<and>
           crtc_objs w' = crtc_objs w \<and> pstate_mem w' = pstate_mem w \<and>
           fb_refcount w' = fb_refcount w \<and> trace w' = trace w"
  using assms
  by (auto simp: drm_atomic_helper_get_crtc_state_def drm_atomic_helper_init_crtc_state_def
        kzalloc_def deref_def Let_def list_write_def
      split: Option.bind_splits if_splits option.splits)

lemma get_plane_state_in_range:
  assumes "helper_mem w a = Some st"
    and "drm_atomic_helper_get_plane_state dev p (Some a) w = Some (r, w')"
  shows "p < length (pstates st)"
  using assms
  by (auto simp: drm_atomic_helper_get_plane_state_def nth_opt_def split: Option.bind_splits if_splits)

lemma get_crtc_state_in_range:
  assumes "helper_mem w a = Some st"
    and "drm_atomic_helper_get_crtc_state dev p (Some a) w = Some (r, w')"
  shows "p < length (cstates st)"
  using assms
  by (auto simp: drm_atomic_helper_get_crtc_state_def nth_opt_def split: Option.bind_splits if_splits)

lemma txn_inv_get_plane_state:
  assumes inv: "txn_inv dev a w"
    and get: "drm_atomic_helper_get_plane_state dev p (Some a) w = Some (r, w')"
  shows "txn_inv dev a w'"
proof -
  from inv obtain st where st: "helper_mem w a = Some st" and ok: "arrays_ok dev w st"
    and only: "\<And>b. helper_mem w b \<noteq> None \<Longrightarrow> b = a"
    by (auto simp: txn_inv_def split: option.splits)
  from st get have p: "p < length (pstates st)" by (rule get_plane_state_in_range)
  with ok have pn: "p < num_plane dev" by (simp add: arrays_ok_def)
  show ?thesis
  proof (cases "pstates st ! p")
    case (Some s)
    with st p get inv show ?thesis by (simp add: get_plane_state_staged)
  next
    case None
    define st2 where "st2 = st\<lparr>planes := (planes st)[p := Some p],
                               pstates := (pstates st)[p := Some (n_alloc w)]\<rparr>"
    from get_plane_state_fresh [OF st p None get]
    obtain l where l: "pl_state (plane_objs w p) = Some l"
      and same: "helper_mem w' = (helper_mem w)(a \<mapsto> st2)" "n_alloc w' = Suc (n_alloc w)"
        "plane_objs w' = plane_objs w" "crtc_objs w' = crtc_objs w"
      unfolding st2_def by blast
    have st2: "planes st2 = (planes st)[p := Some p]" "pstates st2 = (pstates st)[p := Some (n_alloc w)]"
      "crtcs st2 = crtcs st" "cstates st2 = cstates st"
      by (simp_all add: st2_def)
    have a1: "\<forall>i<num_plane dev. slot_ok i (planes st2 ! i) (pstates st2 ! i) (pl_state (plane_objs w' i))"
      unfolding st2 same using ok pn l by (intro slot_ok_stage) (simp_all add: arrays_ok_def)
    have a2: "ptrs_sep (num_plane dev) (n_alloc w') (\<lambda>i. pl_state (plane_objs w' i)) (pstates st2)"
      unfolding st2 same using ok pn by (intro ptrs_sep_stage) (simp_all add: arrays_ok_def)
    have a3: "ptrs_sep (num_crtc dev) (n_alloc w') (\<lambda>i. cr_state (crtc_objs w' i)) (cstates st2)"
      unfolding st2 same using ok by (intro ptrs_sep_Suc) (simp add: arrays_ok_def)
    have "arrays_ok dev w' st2"
      unfolding arrays_ok_def using a1 a2 a3 ok by (simp add: same st2 arrays_ok_def)
    then show ?thesis using only by (auto simp: txn_inv_def same)
  qed
qed

lemma txn_inv_get_crtc_state:
  assumes inv: "txn_inv dev a w"
    and get: "drm_atomic_helper_get_crtc_state dev p (Some a) w = Some (r, w')"
  shows "txn_inv dev a w'"
proof -
  from inv obtain st where st: "helper_mem w a = Some st" and ok: "arrays_ok dev w st"
    and only: "\<And>b. helper_mem w b \<noteq> None \<Longrightarrow> b = a"
    by (auto simp: txn_inv_def split: option.splits)
  from st get have p: "p < length (cstates st)" by (rule get_crtc_state_in_range)
  with ok have pn: "p < num_crtc dev" by (simp add: arrays_ok_def)
  show ?thesis
  proof (cases "cstates st ! p")
    case (Some s)
    with st p get inv show ?thesis by (simp add: get_crtc_state_staged)
  next
    case None
    define st2 where "st2 = st\<lparr>crtcs := (crtcs st)[p := Some p],
                               cstates := (cstates st)[p := Some (n_alloc w)]\<rparr>"
    from get_crtc_state_fresh [OF st p None get]
    obtain l where l: "cr_state (crtc_objs w p) = Some l"
      and same: "helper_mem w' = (helper_mem w)(a \<mapsto> st2)" "n_alloc w' = Suc (n_alloc w)"
        "plane_objs w' = plane_objs w" "crtc_objs w' = crtc_objs w"
      unfolding st2_def by blast
    have st2: "crtcs st2 = (crtcs st)[p := Some p]" "cstates st2 = (cstates st)[p := Some (n_alloc w)]"
      "planes st2 = planes st" "pstates st2 = pstates st"
      by (simp_all add: st2_def)
    have a1: "\<forall>i<num_crtc dev. slot_ok i (crtcs st2 ! i) (cstates st2 ! i) (cr_state (crtc_objs w' i))"
      unfolding st2 same using ok pn l by (intro slot_ok_stage) (simp_all add: arrays_ok_def)
    have a2: "ptrs_sep (num_crtc dev) (n_alloc w') (\<lambda>i. cr_state (crtc_objs w' i)) (cstates st2)"
      unfolding st2 same using ok pn by (intro ptrs_sep_stage) (simp_all add: arrays_ok_def)
    have a3: "ptrs_sep (num_plane dev) (n_alloc w') (\<lambda>i. pl_state (plane_objs w' i)) (pstates st2)"
      unfolding st2 same using ok by (intro ptrs_sep_Suc) (simp add: arrays_ok_def)
    have "arrays_ok dev w' st2"
      unfolding arrays_ok_def using a1 a2 a3 ok by (simp add: same st2 arrays_ok_def)
    then show ?thesis using only by (auto simp: txn_inv_def same)
  qed
qed

lemma txn_inv_plane_set_property:
  assumes "txn_inv dev a w"
    and "drm_atomic_helper_plane_set_property dev p (Some a) property val w = Some (r, w')"
  shows "txn_inv dev a w'"
  using assms
  by (auto simp: drm_atomic_helper_plane_set_property_def Let_def
      split: Option.bind_splits prod.splits dest: txn_inv_get_plane_state)

lemma txn_inv_crtc_set_property:
  assumes "txn_inv dev a w"
    and "drm_atomic_helper_crtc_set_property dev p (Some a) property val w = Some (r, w')"
  shows "txn_inv dev a w'"
  using assms
  by (auto simp: drm_atomic_helper_crtc_set_property_def Let_def
      split: Option.bind_splits prod.splits dest: txn_inv_get_crtc_state)

lemma txn_inv_set_event:
  assumes inv: "txn_inv dev a w"
    and ev: "drm_atomic_helper_set_event dev (Some a) obj ev w = Some (r, w')"
  shows "txn_inv dev a w'"
proof (cases obj)
  case (Object_crtc c)
  with ev obtain p w1 m where "drm_atomic_helper_get_crtc_state dev c (Some a) w = Some (p, w1)"
    and "w' = w1\<lparr>cstate_mem := m\<rparr>"
    by (auto simp: drm_atomic_helper_set_event_def split: Option.bind_splits)
  with inv show ?thesis by (simp add: txn_inv_get_crtc_state)
next
  case (Object_other x)
  with ev inv show ?thesis by (simp add: drm_atomic_helper_set_event_def)
qed

subsection \<open>What one commit step changes\<close>

lemma same_mem_refl [simp]: "same_mem w w"
  by (simp add: same_mem_def)

lemma same_mem_emit [simp]: "same_mem w (emit e w')  = same_mem w w'"
  by (simp add: same_mem_def)

lemma same_mem_emit_left [simp]: "same_mem (emit e w) w' = same_mem w w'"
  by (simp add: same_mem_def)

lemma same_mem_unreference_if [simp]: "same_mem w (unreference_if fb w') = same_mem w w'"
  by (simp add: same_mem_def)

lemma txn_inv_same_mem:
  assumes "txn_inv dev a w" and "same_mem w w'"
  shows "txn_inv dev a w'"
  using assms
  by (auto simp: txn_inv_def arrays_ok_def same_mem_def split: option.splits
      intro: ptrs_sep_mono)

lemma plane_frame_same_mem:
  assumes "same_mem w w'" and "helper_mem w a = Some st"
  shows "plane_frame a T w w'"
  using assms by (simp add: same_mem_def plane_frame_def)

lemma crtc_frame_same_mem:
  assumes "same_mem w w'" and "helper_mem w a = Some st"
  shows "crtc_frame a T w w'"
  using assms by (simp add: same_mem_def crtc_frame_def)

lemma plane_frame_trans:
  assumes "plane_frame a T w w1" and "plane_frame a T w1 w2"
  shows "plane_frame a T w w2"
  using assms by (auto simp: plane_frame_def)

lemma crtc_frame_trans:
  assumes "crtc_frame a T w w1" and "crtc_frame a T w1 w2"
  shows "crtc_frame a T w w2"
  using assms by (auto simp: crtc_frame_def)

lemma plane_frame_mono:
  assumes "plane_frame a T w w'" and "T \<subseteq> T'"
  shows "plane_frame a T' w w'"
  using assms by (fastforce simp: plane_frame_def)

lemma crtc_frame_mono:
  assumes "crtc_frame a T w w'" and "T \<subseteq> T'"
  shows "crtc_frame a T' w w'"
  using assms by (fastforce simp: crtc_frame_def)

lemma swap_plane_state_frame:
  assumes inv: "txn_inv dev a w" and sw: "swap_plane_state p bk w = Some w'"
  shows "plane_frame a {p} w w'"
proof -
  from inv obtain st where st: "helper_mem w a = Some st"
    and only: "\<And>b. helper_mem w b \<noteq> None \<Longrightarrow> b = a"
    by (auto simp: txn_inv_def split: option.splits)
  from sw obtain b st' where bk: "bk = Some b" and hb: "helper_mem w b = Some st'"
    by (auto simp: swap_plane_state_def split: Option.bind_splits)
  with only have "b = a" by auto
  with sw bk st show ?thesis
    by (auto simp: swap_plane_state_def plane_frame_def Let_def nth_opt_def
        split: Option.bind_splits if_splits)
qed

lemma swap_crtc_state_frame:
  assumes inv: "txn_inv dev a w" and sw: "swap_crtc_state p bk w = Some w'"
  shows "crtc_frame a {p} w w'"
proof -
  from inv obtain st where st: "helper_mem w a = Some st"
    and only: "\<And>b. helper_mem w b \<noteq> None \<Longrightarrow> b = a"
    by (auto simp: txn_inv_def split: option.splits)
  from sw obtain b st' where bk: "bk = Some b" and hb: "helper_mem w b = Some st'"
    by (auto simp: swap_crtc_state_def split: Option.bind_splits)
  with only have "b = a" by auto
  with sw bk st show ?thesis
    by (auto simp: swap_crtc_state_def crtc_frame_def Let_def nth_opt_def
        split: Option.bind_splits if_splits)
qed

lemma commit_plane_state_cases:
  assumes "drm_atomic_helper_commit_plane_state dev p ptr w = Some (r, w')"
  shows "(r \<noteq> 0 \<and> same_mem w w') \<or>
         (r = 0 \<and> (\<exists>bk w1 w2. same_mem w w1 \<and> swap_plane_state p bk w1 = Some w2 \<and> same_mem w2 w'))"
proof -
  from assms obtain ps where ps: "deref ptr (pstate_mem w) = Some ps"
    by (auto simp: drm_atomic_helper_commit_plane_state_def split: Option.bind_splits)
  show ?thesis
  proof (cases "ps_crtc ps \<noteq> None \<and> ps_fb ps \<noteq> None")
    case True
    then obtain c f where cf: "ps_crtc ps = Some c" "ps_fb ps = Some f" by auto
    let ?e = "Update_plane p c f (ps_crtc_x ps, ps_crtc_y ps, ps_crtc_w ps, ps_crtc_h ps)
                (ps_src_x ps, ps_src_y ps, ps_src_w ps, ps_src_h ps)"
    show ?thesis
    proof (cases "r = 0")
      case True
      with assms ps cf obtain w2 ofb where "swap_plane_state p (ps_state ps) (emit ?e w) = Some w2"
        and "w' = unreference_if ofb w2"
        by (auto simp: drm_atomic_helper_commit_plane_state_def Let_def
            split: Option.bind_splits if_splits)
      then have "same_mem w (emit ?e w) \<and> swap_plane_state p (ps_state ps) (emit ?e w) = Some w2 \<and>
                 same_mem w2 w'"
        by simp
      with True show ?thesis by blast
    next
      case False
      with assms ps cf show ?thesis
        by (auto simp: drm_atomic_helper_commit_plane_state_def Let_def
            split: Option.bind_splits if_splits)
    qed
  next
    case False
    with assms ps obtain w2 ofb where "swap_plane_state p (ps_state ps) (emit (Disable_plane p) w) = Some w2"
      and "w' = unreference_if ofb (unreference_if (ps_fb ps) w2)" and r: "r = 0"
      by (auto simp: drm_atomic_helper_commit_plane_state_def Let_def
          split: Option.bind_splits if_splits option.splits)
    then have "same_mem w (emit (Disable_plane p) w) \<and>
               swap_plane_state p (ps_state ps) (emit (Disable_plane p) w) = Some w2 \<and> same_mem w2 w'"
      by simp
    with r show ?thesis by blast
  qed
qed

lemma set_config_cases:
  assumes "set_config dev p ptr w = Some (r, w')"
  shows "(r \<noteq> 0 \<and> same_mem w w') \<or>
         (r = 0 \<and> (\<exists>bk w1 w2. same_mem w w1 \<and> swap_crtc_state p bk w1 = Some w2 \<and> same_mem w2 w'))"
proof -
  from assms obtain cs where cs: "deref ptr (cstate_mem w) = Some cs"
    by (auto simp: set_config_def split: Option.bind_splits)
  obtain conns w1 where g: "get_connector_set dev (cs_connector_ids cs) w = (conns, w1)"
    by (cases "get_connector_set dev (cs_connector_ids cs) w")
  then have w1: "same_mem w w1"
    by (auto simp: get_connector_set_def kzalloc_def same_mem_def Let_def split: if_splits)
  show ?thesis
  proof (cases "r = 0")
    case True
    with assms cs g obtain e w3 where "swap_crtc_state p (cs_state cs) (emit e w1) = Some w3"
      and "w' = unreference_if (cs_fb cs) w3"
      by (auto simp: set_config_def Let_def split: Option.bind_splits if_splits)
    with w1 have "same_mem w (emit e w1) \<and> swap_crtc_state p (cs_state cs) (emit e w1) = Some w3 \<and>
                  same_mem w3 w'"
      by simp
    with True show ?thesis by blast
  next
    case False
    with assms cs g w1 show ?thesis
      by (auto simp: set_config_def Let_def split: Option.bind_splits if_splits)
  qed
qed

lemma commit_crtc_state_cases:
  assumes "drm_atomic_helper_commit_crtc_state dev p ptr w = Some (r, w')"
  shows "(r \<noteq> 0 \<and> same_mem w w') \<or>
         (r = 0 \<and> (\<exists>bk w1 w2. same_mem w w1 \<and> swap_crtc_state p bk w1 = Some w2 \<and> same_mem w2 w'))"
proof -
  from assms obtain cs where cs: "deref ptr (cstate_mem w) = Some cs"
    by (auto simp: drm_atomic_helper_commit_crtc_state_def split: Option.bind_splits)
  show ?thesis
  proof (cases "cs_set_config cs")
    case True
    with assms cs have "set_config dev p ptr w = Some (r, w')"
      by (simp add: drm_atomic_helper_commit_crtc_state_def)
    then show ?thesis by (rule set_config_cases)
  next
    case nsc: False
    show ?thesis
    proof (cases "r = 0")
      case True
      with assms cs nsc obtain e w2 ofb where "swap_crtc_state p (cs_state cs) (emit e w) = Some w2"
        and "w' = unreference_if ofb w2"
        by (auto simp: drm_atomic_helper_commit_crtc_state_def Let_def EBUSY_def EINVAL_def
            split: Option.bind_splits if_splits option.splits)
      then have "same_mem w (emit e w) \<and> swap_crtc_state p (cs_state cs) (emit e w) = Some w2 \<and>
                 same_mem w2 w'"
        by simp
      with True show ?thesis by blast
    next
      case False
      with assms cs nsc show ?thesis
        by (auto simp: drm_atomic_helper_commit_crtc_state_def Let_def
            split: Option.bind_splits if_splits option.splits)
    qed
  qed
qed

lemma plane_frame_of_same_mem:
  assumes "txn_inv dev a w" and "same_mem w w'"
  shows "plane_frame a T w w'"
  using assms by (auto simp: txn_inv_def split: option.splits intro: plane_frame_same_mem)

lemma crtc_frame_of_same_mem:
  assumes "txn_inv dev a w" and "same_mem w w'"
  shows "crtc_frame a T w w'"
  using assms by (auto simp: txn_inv_def split: option.splits intro: crtc_frame_same_mem)

lemma commit_plane_state_inv_frame:
  assumes inv: "txn_inv dev a w" and st: "helper_mem w a = Some st"
    and staged: "planes st ! p = Some p" and p: "p < num_plane dev"
    and commit: "drm_atomic_helper_commit_plane_state dev p ptr w = Some (r, w')"
  shows "txn_inv dev a w' \<and> plane_frame a {p} w w'"
proof -
  from commit_plane_state_cases [OF commit]
  consider "same_mem w w'"
    | bk w1 w2 where "same_mem w w1" "swap_plane_state p bk w1 = Some w2" "same_mem w2 w'"
    by blast
  then show ?thesis
  proof cases
    case 1
    with inv show ?thesis by (simp add: txn_inv_same_mem plane_frame_of_same_mem)
  next
    case 2
    from inv 2(1) have i1: "txn_inv dev a w1" and f1: "plane_frame a {p} w w1"
      by (simp_all add: txn_inv_same_mem plane_frame_of_same_mem)
    from 2(1) st have st1: "helper_mem w1 a = Some st" by (simp add: same_mem_def)
    have i2: "txn_inv dev a w2" by (rule txn_inv_swap_plane [OF i1 st1 staged p 2(2)])
    from i1 2(2) have f2: "plane_frame a {p} w1 w2" by (rule swap_plane_state_frame)
    from i2 2(3) have i3: "txn_inv dev a w'" and f3: "plane_frame a {p} w2 w'"
      by (simp_all add: txn_inv_same_mem plane_frame_of_same_mem)
    from f1 f2 f3 i3 show ?thesis by (blast intro: plane_frame_trans)
  qed
qed

lemma commit_crtc_state_inv_frame:
  assumes inv: "txn_inv dev a w" and st: "helper_mem w a = Some st"
    and staged: "crtcs st ! p = Some p" and p: "p < num_crtc dev"
    and commit: "drm_atomic_helper_commit_crtc_state dev p ptr w = Some (r, w')"
  shows "txn_inv dev a w' \<and> crtc_frame a {p} w w'"
proof -
  from commit_crtc_state_cases [OF commit]
  consider "same_mem w w'"
    | bk w1 w2 where "same_mem w w1" "swap_crtc_state p bk w1 = Some w2" "same_mem w2 w'"
    by blast
  then show ?thesis
  proof cases
    case 1
    with inv show ?thesis by (simp add: txn_inv_same_mem crtc_frame_of_same_mem)
  next
    case 2
    from inv 2(1) have i1: "txn_inv dev a w1" and f1: "crtc_frame a {p} w w1"
      by (simp_all add: txn_inv_same_mem crtc_frame_of_same_mem)
    from 2(1) st have st1: "helper_mem w1 a = Some st" by (simp add: same_mem_def)
    have i2: "txn_inv dev a w2" by (rule txn_inv_swap_crtc [OF i1 st1 staged p 2(2)])
    from i1 2(2) have f2: "crtc_frame a {p} w1 w2" by (rule swap_crtc_state_frame)
    from i2 2(3) have i3: "txn_inv dev a w'" and f3: "crtc_frame a {p} w2 w'"
      by (simp_all add: txn_inv_same_mem crtc_frame_of_same_mem)
    from f1 f2 f3 i3 show ?thesis by (blast intro: crtc_frame_trans)
  qed
qed

lemma staged_marker:
  assumes "txn_inv dev a w" and "helper_mem w a = Some st"
  shows "i < num_plane dev \<Longrightarrow> planes st ! i = Some p \<Longrightarrow> p = i"
    and "j < num_crtc dev \<Longrightarrow> crtcs st ! j = Some c \<Longrightarrow> c = j"
    and "length (planes st) = num_plane dev" and "length (pstates st) = num_plane dev"
    and "length (crtcs st) = num_crtc dev" and "length (cstates st) = num_crtc dev"
  using assms by (auto simp: txn_inv_def arrays_ok_def slot_ok_def)

lemma plane_frame_staged:
  assumes "plane_frame a T w w'"
  shows "staged_planes a w' = staged_planes a w" and "staged_crtcs a w' = staged_crtcs a w"
  using assms by (auto simp: plane_frame_def staged_planes_def staged_crtcs_def)

lemma crtc_frame_staged:
  assumes "crtc_frame a T w w'"
  shows "staged_planes a w' = staged_planes a w" and "staged_crtcs a w' = staged_crtcs a w"
  using assms by (auto simp: crtc_frame_def staged_planes_def staged_crtcs_def)

subsection \<open>The loops of check and commit\<close>

lemma check_planes_same_mem:
  assumes "check_planes dev state idx ret w = Some (r, w')"
  shows "same_mem w w' \<and> fb_refcount w' = fb_refcount w"
  using assms
proof (induction idx arbitrary: ret w)
  case Nil
  then show ?case by simp
next
  case (Cons i rest)
  from Cons.prems obtain st where st: "deref state (helper_mem w) = Some st"
    by (auto split: Option.bind_splits)
  show ?case
  proof (cases "nth_opt (planes st) i")
    case None
    with Cons.prems st show ?thesis by simp
  next
    case (Some marker)
    show ?thesis
    proof (cases marker)
      case None
      with Cons.prems st Some have "check_planes dev state rest ret w = Some (r, w')" by simp
      then show ?thesis by (rule Cons.IH)
    next
      case (Some plane)
      with Cons.prems st \<open>nth_opt (planes st) i = Some marker\<close>
      obtain ps where w1: "r \<noteq> 0 \<and> w' = emit (Check_plane_state plane ps) w \<or>
          check_planes dev state rest 0 (emit (Check_plane_state plane ps) w) = Some (r, w')"
        by (auto simp: drm_atomic_check_plane_state_def split: Option.bind_splits if_splits)
      then show ?thesis
      proof
        assume "r \<noteq> 0 \<and> w' = emit (Check_plane_state plane ps) w"
        then show ?thesis by simp
      next
        assume "check_planes dev state rest 0 (emit (Check_plane_state plane ps) w) = Some (r, w')"
        from Cons.IH [OF this] show ?thesis by simp
      qed
    qed
  qed
qed

lemma commit_planes_inv_frame:
  assumes "txn_inv dev a w" and "set idx \<subseteq> {..<num_plane dev}"
    and "commit_planes dev (Some a) idx ret w = Some (r, w')"
  shows "txn_inv dev a w' \<and> plane_frame a (staged_planes a w) w w'"
  using assms
proof (induction idx arbitrary: ret w)
  case Nil
  then show ?case by (simp add: plane_frame_of_same_mem)
next
  case (Cons i rest)
  from Cons.prems(1) obtain st where st: "helper_mem w a = Some st"
    by (auto simp: txn_inv_def split: option.splits)
  from Cons.prems(2) have i: "i < num_plane dev" and rest: "set rest \<subseteq> {..<num_plane dev}"
    by auto
  note len = staged_marker(3,4) [OF Cons.prems(1) st]
  show ?case
  proof (cases "planes st ! i")
    case None
    with Cons.prems(3) st i len have "commit_planes dev (Some a) rest ret w = Some (r, w')"
      by simp
    from Cons.IH [OF Cons.prems(1) rest this] show ?thesis .
  next
    case (Some plane)
    with staged_marker(1) [OF Cons.prems(1) st i] have [simp]: "plane = i" by simp
    from Some st i len have in_T: "{i} \<subseteq> staged_planes a w"
      by (simp add: staged_planes_def)
    from Cons.prems(3) st i len Some obtain r1 w1
      where c: "drm_atomic_helper_commit_plane_state dev i (Some (pstates st ! i) \<bind> id) w = Some (r1, w1)
                \<or> drm_atomic_helper_commit_plane_state dev i (pstates st ! i) w = Some (r1, w1)"
        and k: "if r1 \<noteq> 0 then r = r1 \<and> w' = w1 else commit_planes dev (Some a) rest r1 w1 = Some (r, w')"
      by (auto simp: drm_atomic_commit_plane_state_def split: Option.bind_splits if_splits)
    then have c': "drm_atomic_helper_commit_plane_state dev i (pstates st ! i) w = Some (r1, w1)"
      by auto
    from Some have "planes st ! i = Some i" by simp
    from commit_plane_state_inv_frame [OF Cons.prems(1) st this i c']
    have i1: "txn_inv dev a w1" and f1: "plane_frame a {i} w w1" by simp_all
    from f1 in_T have f1': "plane_frame a (staged_planes a w) w w1" by (rule plane_frame_mono)
    show ?thesis
    proof (cases "r1 = 0")
      case True
      with k have "commit_planes dev (Some a) rest r1 w1 = Some (r, w')" by simp
      from Cons.IH [OF i1 rest this] plane_frame_staged(1) [OF f1] f1'
      show ?thesis by (auto intro: plane_frame_trans)
    next
      case False
      with k i1 f1' show ?thesis by simp
    qed
  qed
qed

lemma commit_crtcs_inv_frame:
  assumes "txn_inv dev a w" and "set idx \<subseteq> {..<num_crtc dev}"
    and "commit_crtcs dev (Some a) idx ret w = Some (r, w')"
  shows "txn_inv dev a w' \<and> crtc_frame a (staged_crtcs a w) w w'"
  using assms
proof (induction idx arbitrary: ret w)
  case Nil
  then show ?case by (simp add: crtc_frame_of_same_mem)
next
  case (Cons i rest)
  from Cons.prems(1) obtain st where st: "helper_mem w a = Some st"
    by (auto simp: txn_inv_def split: option.splits)
  from Cons.prems(2) have i: "i < num_crtc dev" and rest: "set rest \<subseteq> {..<num_crtc dev}"
    by auto
  note len = staged_marker(5,6) [OF Cons.prems(1) st]
  show ?case
  proof (cases "crtcs st ! i")
    case None
    with Cons.prems(3) st i len have "commit_crtcs dev (Some a) rest ret w = Some (r, w')"
      by simp
    from Cons.IH [OF Cons.prems(1) rest this] show ?thesis .
  next
    case (Some crtc)
    with staged_marker(2) [OF Cons.prems(1) st i] have [simp]: "crtc = i" by simp
    from Some st i len have in_T: "{i} \<subseteq> staged_crtcs a w"
      by (simp add: staged_crtcs_def)
    from Cons.prems(3) st i len Some obtain r1 w1
      where c': "drm_atomic_helper_commit_crtc_state dev i (cstates st ! i) w = Some (r1, w1)"
        and k: "if r1 \<noteq> 0 then r = r1 \<and> w' = w1 else commit_crtcs dev (Some a) rest r1 w1 = Some (r, w')"
      by (auto simp: drm_atomic_commit_crtc_state_def split: Option.bind_splits if_splits)
    from Some have "crtcs st ! i = Some i" by simp
    from commit_crtc_state_inv_frame [OF Cons.prems(1) st this i c']
    have i1: "txn_inv dev a w1" and f1: "crtc_frame a {i} w w1" by simp_all
    from f1 in_T have f1': "crtc_frame a (staged_crtcs a w) w w1" by (rule crtc_frame_mono)
    show ?thesis
    proof (cases "r1 = 0")
      case True
      with k have "commit_crtcs dev (Some a) rest r1 w1 = Some (r, w')" by simp
      from Cons.IH [OF i1 rest this] crtc_frame_staged(2) [OF f1] f1'
      show ?thesis by (auto intro: crtc_frame_trans)
    next
      case False
      with k i1 f1' show ?thesis by simp
    qed
  qed
qed

lemma commit_inv_frame:
  assumes inv: "txn_inv dev a w" and c: "drm_atomic_helper_commit dev (Some a) w = Some (r, w')"
  shows "txn_inv dev a w' \<and>
         (\<exists>w1. plane_frame a (staged_planes a w) w w1 \<and> crtc_frame a (staged_crtcs a w) w1 w')"
proof -
  from c obtain r1 w1 where p: "commit_planes dev (Some a) [0..<num_plane dev] 0 w = Some (r1, w1)"
    and q: "commit_crtcs dev (Some a) [0..<num_crtc dev] r1 w1 = Some (r, w')"
    by (auto simp: drm_atomic_helper_commit_def split: Option.bind_splits)
  have sub: "set [0..<num_plane dev] \<subseteq> {..<num_plane dev}" "set [0..<num_crtc dev] \<subseteq> {..<num_crtc dev}"
    by auto
  from commit_planes_inv_frame [OF inv sub(1) p]
  have i1: "txn_inv dev a w1" and f1: "plane_frame a (staged_planes a w) w w1" by auto
  from commit_crtcs_inv_frame [OF i1 sub(2) q] plane_frame_staged(2) [OF f1]
  have "txn_inv dev a w'" and "crtc_frame a (staged_crtcs a w) w1 w'" by auto
  with f1 show ?thesis by blast
qed

lemma reachable_inv:
  assumes "reachable dev a w"
  shows "txn_inv dev a w"
  using assms
proof (induction rule: reachable.induct)
  case (reach_begin w0 flgs w)
  then show ?case by (rule txn_inv_begin)
next
  case (reach_get_plane_state w plane p w')
  then show ?case by (blast intro: txn_inv_get_plane_state)
next
  case (reach_get_crtc_state w crtc p w')
  then show ?case by (blast intro: txn_inv_get_crtc_state)
next
  case (reach_plane_set_property w plane property val r w')
  then show ?case by (blast intro: txn_inv_plane_set_property)
next
  case (reach_crtc_set_property w crtc property val r w')
  then show ?case by (blast intro: txn_inv_crtc_set_property)
next
  case (reach_set_event w obj ev r w')
  then show ?case by (blast intro: txn_inv_set_event)
next
  case (reach_check w r w')
  then show ?case
    by (auto simp: drm_atomic_helper_check_def dest!: check_planes_same_mem intro: txn_inv_same_mem)
next
  case (reach_commit w r w')
  then show ?case by (blast dest: commit_inv_frame)
qed

subsection \<open>The concrete transactions, step by step\<close>

lemma dev_demo_fields:
  "num_plane dev_demo = 3"
  "num_crtc dev_demo = 2"
  "ptr_bytes dev_demo = 4"
  "alloc_ok dev_demo n"
  "check_plane_state dev_demo p ps = (if p = 1 then - EINVAL else 0)"
  "update_plane dev_demo p c fb dst src = (if p = 2 then - EINVAL else 0)"
  "page_flip dev_demo 0 = Some (\<lambda>fb ev fl. if fb = 9 then - EBUSY else 0)"
  "page_flip dev_demo 1 = None"
  "mode_set_config_internal dev_demo ms = 0"
  by (simp_all add: dev_demo_def)

lemma counts_fit_dev_demo: "counts_fit dev_demo"
  by (simp add: counts_fit_def sizeof_helper_state_def dev_demo_fields)

lemma initial_w_boot: "initial_world dev_demo w_boot"
  using counts_fit_dev_demo
  by (auto simp: initial_world_def ptrs_sep_def dev_demo_fields w_boot_def)

lemma w_boot_fields:
  "plane_objs w_boot i = \<lparr>pl_state = Some i, pl_propvals = Some i\<rparr>"
  "crtc_objs w_boot i = \<lparr>cr_state = Some i, cr_fb = (if i = 0 then Some 1 else None), cr_propvals = Some i\<rparr>"
  "a < 3 \<Longrightarrow> pstate_mem w_boot a = Some boot_plane_state"
  "cstate_mem w_boot 0 = Some boot_crtc_state"
  "fb_refcount w_boot f = 1"
  by (simp_all add: w_boot_def boot_crtc_state_def)

lemma begin_w_boot: "drm_atomic_helper_begin dev_demo 0 w_boot = Some (Some 3, w_begun)"
  by (simp add: w_begun_def after_def begin_counts_fit [OF counts_fit_dev_demo] kzalloc_def
      dev_demo_fields w_boot_def)

text \<open>
  On the device whose byte count wraps around, the block of \<open>begin\<close> has 72 bytes:
  the struct and the first four markers. The other elements of the arrays lie
  outside it.
\<close>

lemma dev_huge_fields:
  "num_plane dev_huge = 2 ^ 28" "num_crtc dev_huge = 2" "ptr_bytes dev_huge = 8"
  "alloc_ok dev_huge = (\<lambda>n. True)"
  by (simp_all add: dev_huge_def dev_demo_def)

lemma begin_sz_dev_huge:
  "begin_sz dev_huge = 72"
  by (simp add: begin_sz_def sizeof_helper_state_def dev_huge_fields)

lemma not_counts_fit_dev_huge:
  "\<not> counts_fit dev_huge"
  by (simp add: counts_fit_def sizeof_helper_state_def dev_huge_fields)

lemma size_t_of_int_72:
  "size_t_of_int dev 72 = 72"
  by (simp add: size_t_of_int_def)

lemma replicate_4:
  "replicate 4 x = [x, x, x, x]"
  by (simp add: numeral_eq_Suc)

lemma begin_dev_huge:
  "\<exists>w1. drm_atomic_helper_begin dev_huge 0 w_boot = Some (Some 3, w1) \<and>
     helper_mem w1 3 = Some \<lparr>flags = 0, planes = [None, None, None, None], pstates = [],
                              crtcs = [], cstates = []\<rparr>"
  by (simp add: drm_atomic_helper_begin_def kzalloc_def Let_def begin_sz_dev_huge
      size_t_of_int_72 dev_huge_fields replicate_4 sizeof_helper_state_def slots_inside_def
      w_boot_def)

lemma w_begun_fields:
  "helper_mem w_begun 3 = Some \<lparr>flags = 0, planes = [None, None, None], pstates = [None, None, None],
                                 crtcs = [None, None], cstates = [None, None]\<rparr>"
  "n_alloc w_begun = 4"
  "plane_objs w_begun = plane_objs w_boot"
  "crtc_objs w_begun = crtc_objs w_boot"
  "pstate_mem w_begun = pstate_mem w_boot"
  "cstate_mem w_begun = cstate_mem w_boot"
  "fb_refcount w_begun = fb_refcount w_boot"
  "trace w_begun = []"
  by (simp_all add: w_begun_def after_def begin_counts_fit [OF counts_fit_dev_demo] kzalloc_def
      dev_demo_fields w_boot_def numeral_3_eq_3 numeral_2_eq_2)

lemma reachable_w_begun: "reachable dev_demo 3 w_begun"
  using initial_w_boot begin_w_boot by (rule reach_begin)

lemma plane0_call:
  "drm_atomic_helper_plane_set_property dev_demo 0 (Some 3) 0 5 w_begun = Some (0, w_plane0)"
  by (simp add: w_plane0_def after_def drm_atomic_helper_plane_set_property_def
      drm_atomic_helper_get_plane_state_def drm_atomic_helper_init_plane_state_def
      w_begun_fields w_boot_fields kzalloc_def dev_demo_def)

lemma w_plane0_fields:
  "helper_mem w_plane0 3 = Some \<lparr>flags = 0, planes = [Some 0, None, None], pstates = [Some 4, None, None],
                                 crtcs = [None, None], cstates = [None, None]\<rparr>"
  "n_alloc w_plane0 = 5"
  "plane_objs w_plane0 = plane_objs w_boot"
  "crtc_objs w_plane0 = crtc_objs w_boot"
  "pstate_mem w_plane0 = (pstate_mem w_boot)(4 \<mapsto> boot_plane_state\<lparr>ps_state := Some 3, ps_fb := Some 5\<rparr>)"
  "cstate_mem w_plane0 = cstate_mem w_boot"
  "fb_refcount w_plane0 = fb_refcount w_boot"
  "trace w_plane0 = []"
  by (simp_all add: w_plane0_def after_def drm_atomic_helper_plane_set_property_def
      drm_atomic_helper_get_plane_state_def drm_atomic_helper_init_plane_state_def
      w_begun_fields w_boot_fields kzalloc_def dev_demo_def)

lemma staged_call:
  "drm_atomic_helper_get_crtc_state dev_demo 0 (Some 3) w_plane0 = Some (Some 5, w_staged)"
  by (simp add: w_staged_def after_def
      drm_atomic_helper_get_crtc_state_def drm_atomic_helper_init_crtc_state_def
      w_plane0_fields w_boot_fields kzalloc_def dev_demo_def)

lemma w_staged_fields:
  "helper_mem w_staged 3 = Some \<lparr>flags = 0, planes = [Some 0, None, None], pstates = [Some 4, None, None],
                                 crtcs = [Some 0, None], cstates = [Some 5, None]\<rparr>"
  "n_alloc w_staged = 6"
  "plane_objs w_staged = plane_objs w_boot"
  "crtc_objs w_staged = crtc_objs w_boot"
  "pstate_mem w_staged = (pstate_mem w_boot)(4 \<mapsto> boot_plane_state\<lparr>ps_state := Some 3, ps_fb := Some 5\<rparr>)"
  "cstate_mem w_staged = (cstate_mem w_boot)(5 \<mapsto> boot_crtc_state\<lparr>cs_state := Some 3\<rparr>)"
  "fb_refcount w_staged = fb_refcount w_boot"
  "trace w_staged = []"
  by (simp_all add: w_staged_def after_def
      drm_atomic_helper_get_crtc_state_def drm_atomic_helper_init_crtc_state_def
      w_plane0_fields w_boot_fields kzalloc_def dev_demo_def)

lemma reachable_w_staged: "reachable dev_demo 3 w_staged"
  using reachable_w_begun plane0_call staged_call
  by (blast intro: reach_plane_set_property reach_get_crtc_state)

lemma w_plane01_fields:
  "helper_mem w_plane01 3 = Some \<lparr>flags = 0, planes = [Some 0, Some 1, None],
                                   pstates = [Some 4, Some 5, None],
                                   crtcs = [None, None], cstates = [None, None]\<rparr>"
  "n_alloc w_plane01 = 6"
  "plane_objs w_plane01 = plane_objs w_boot"
  "pstate_mem w_plane01 = (pstate_mem w_boot)
      (4 \<mapsto> boot_plane_state\<lparr>ps_state := Some 3, ps_fb := Some 5\<rparr>,
       5 \<mapsto> boot_plane_state\<lparr>ps_state := Some 3\<rparr>)"
  "trace w_plane01 = []"
  by (simp_all add: w_plane01_def after_def
      drm_atomic_helper_get_plane_state_def drm_atomic_helper_init_plane_state_def
      w_plane0_fields w_boot_fields kzalloc_def dev_demo_def)

lemma w_plane012_fields:
  "helper_mem w_plane012 3 = Some \<lparr>flags = 0, planes = [Some 0, Some 1, Some 2],
                                   pstates = [Some 4, Some 5, Some 6],
                                   crtcs = [None, None], cstates = [None, None]\<rparr>"
  "pstate_mem w_plane012 = (pstate_mem w_boot)
      (4 \<mapsto> boot_plane_state\<lparr>ps_state := Some 3, ps_fb := Some 5\<rparr>,
       5 \<mapsto> boot_plane_state\<lparr>ps_state := Some 3\<rparr>,
       6 \<mapsto> boot_plane_state\<lparr>ps_state := Some 3\<rparr>)"
  "trace w_plane012 = []"
  by (simp_all add: w_plane012_def after_def
      drm_atomic_helper_get_plane_state_def drm_atomic_helper_init_plane_state_def
      w_plane01_fields w_boot_fields kzalloc_def dev_demo_def)

lemma commit_w_staged:
  "drm_atomic_helper_commit dev_demo (Some 3) w_staged = Some (- 22, w_committed)"
  by (simp add: w_committed_def after_def drm_atomic_helper_commit_def
      drm_atomic_commit_plane_state_def drm_atomic_commit_crtc_state_def
      drm_atomic_helper_commit_plane_state_def drm_atomic_helper_commit_crtc_state_def
      swap_plane_state_def
      w_staged_fields w_boot_fields dev_demo_fields upt_0_3 upt_0_2 boot_plane_state_def
      boot_crtc_state_def EINVAL_def)

lemma w_boot_crtc1: "cstate_mem w_boot (Suc 0) = Some (boot_crtc_state\<lparr>cs_fb := None\<rparr>)"
  by (simp add: w_boot_def)

lemma w_crtc1_fields:
  "helper_mem w_crtc1 3 = Some \<lparr>flags = 0, planes = [None, None, None], pstates = [None, None, None],
                                 crtcs = [None, Some 1], cstates = [None, Some 4]\<rparr>"
  "crtc_objs w_crtc1 = crtc_objs w_boot"
  "cstate_mem w_crtc1 = (cstate_mem w_boot)(4 \<mapsto> boot_crtc_state\<lparr>cs_state := Some 3, cs_fb := Some 6\<rparr>)"
  by (simp_all add: w_crtc1_def after_def drm_atomic_helper_crtc_set_property_def
      drm_atomic_helper_get_crtc_state_def drm_atomic_helper_init_crtc_state_def
      w_begun_fields w_boot_fields w_boot_crtc1 kzalloc_def dev_demo_def)

lemma w_flip9_fields:
  "helper_mem w_flip9 3 = Some \<lparr>flags = 0, planes = [None, None, None], pstates = [None, None, None],
                                 crtcs = [Some 0, None], cstates = [Some 4, None]\<rparr>"
  "crtc_objs w_flip9 = crtc_objs w_boot"
  "cstate_mem w_flip9 = (cstate_mem w_boot)(4 \<mapsto> boot_crtc_state\<lparr>cs_state := Some 3, cs_fb := Some 9\<rparr>)"
  "fb_refcount w_flip9 = fb_refcount w_boot"
  "trace w_flip9 = []"
  by (simp_all add: w_flip9_def after_def drm_atomic_helper_crtc_set_property_def
      drm_atomic_helper_get_crtc_state_def drm_atomic_helper_init_crtc_state_def
      w_begun_fields w_boot_fields kzalloc_def dev_demo_def)

subsection \<open>Where the code departs from the specification\<close>

lemma w_mixed_fields:
  "helper_mem w_mixed 3 = Some \<lparr>flags = 0, planes = [None, None, Some 2], pstates = [None, None, Some 4],
                                 crtcs = [Some 0, None], cstates = [Some 5, None]\<rparr>"
  "plane_objs w_mixed = plane_objs w_boot"
  "crtc_objs w_mixed = crtc_objs w_boot"
  "pstate_mem w_mixed = (pstate_mem w_boot)(4 \<mapsto> boot_plane_state\<lparr>ps_state := Some 3, ps_fb := Some 5\<rparr>)"
  "cstate_mem w_mixed = (cstate_mem w_boot)(5 \<mapsto> boot_crtc_state\<lparr>cs_state := Some 3, cs_fb := Some 6\<rparr>)"
  "fb_refcount w_mixed = fb_refcount w_boot"
  "trace w_mixed = []"
  by (simp_all add: w_mixed_def w_plane2_def after_def
      drm_atomic_helper_plane_set_property_def drm_atomic_helper_crtc_set_property_def
      drm_atomic_helper_get_plane_state_def drm_atomic_helper_init_plane_state_def
      drm_atomic_helper_get_crtc_state_def drm_atomic_helper_init_crtc_state_def
      w_begun_fields w_boot_fields kzalloc_def dev_demo_def)

text \<open>
  Claim C1 at a concrete transaction: plane 2 is staged with image 5 and crtc 0
  with image 6. The check of plane 2 succeeds, so \<open>validate\<close> returns 0. In the
  commit, the commit step of plane 2 fails with \<open>-EINVAL\<close>. The commit then goes on
  to the crtcs: it calls the flip primitive of crtc 0, swaps the state blocks of
  crtc 0, and returns 0, the result of the crtc.
\<close>

theorem commit_runs_crtcs_after_plane_failure:
  "(\<exists>w1. drm_atomic_helper_check dev_demo (Some 3) w_mixed = Some (0, w1)) \<and>
   (\<exists>w1. drm_atomic_helper_commit_plane_state dev_demo 2 (Some 4) w_mixed = Some (- 22, w1)) \<and>
   (\<exists>w'. drm_atomic_helper_commit dev_demo (Some 3) w_mixed = Some (0, w') \<and>
      trace w' = [Update_plane 2 0 5 (0, 0, 0, 0) (0, 0, 0, 0), Framebuffer_unreference 5,
                  Page_flip 0 6 None 0, Framebuffer_unreference 1] \<and>
      cr_state (crtc_objs w_mixed 0) = Some 0 \<and> cr_state (crtc_objs w' 0) = Some 5)"
  by (simp add: drm_atomic_helper_check_def drm_atomic_check_plane_state_def
      drm_atomic_helper_commit_def
      drm_atomic_commit_plane_state_def drm_atomic_commit_crtc_state_def
      drm_atomic_helper_commit_plane_state_def drm_atomic_helper_commit_crtc_state_def
      swap_crtc_state_def
      w_mixed_fields w_boot_fields dev_demo_fields upt_0_3 upt_0_2 boot_plane_state_def
      boot_crtc_state_def EINVAL_def EBUSY_def)

text \<open>
  Claim C2 at a concrete call: on a device whose allocation fails, \<open>begin\<close> does not
  return; it writes \<open>state->flags\<close> through the null pointer that \<open>kzalloc\<close> returned.
\<close>

theorem begin_writes_through_failed_allocation:
  "fst (kzalloc dev_oom w_boot) = None \<and> drm_atomic_helper_begin dev_oom 0 w_boot = None"
  by (simp add: drm_atomic_helper_begin_def kzalloc_def dev_oom_def)

subsection \<open>Validate\<close>

lemma touched_surfaces_Nil [simp]: "touched_surfaces st mem [] = []"
  by (simp add: touched_surfaces_def map_filter_simps)

lemma touched_surfaces_Cons:
  "touched_surfaces st mem (i # rest) =
     (case planes st ! i of
        None \<Rightarrow> touched_surfaces st mem rest
      | Some p \<Rightarrow> (case deref (pstates st ! i) mem of
                     None \<Rightarrow> touched_surfaces st mem rest
                   | Some ps \<Rightarrow> (p, ps) # touched_surfaces st mem rest))"
  by (simp add: touched_surfaces_def map_filter_simps split: option.splits)

lemma check_planes_spec:
  assumes st: "helper_mem w a = Some st"
    and idx: "set idx \<subseteq> {..<num_plane dev}"
    and len: "length (planes st) = num_plane dev" "length (pstates st) = num_plane dev"
    and shadows: "\<forall>i<num_plane dev. planes st ! i \<noteq> None \<longrightarrow> deref (pstates st ! i) (pstate_mem w) \<noteq> None"
  shows "check_planes dev (Some a) idx 0 w =
           Some (first_error dev (touched_surfaces st (pstate_mem w) idx),
                 w\<lparr>trace := trace w @ map check_event
                     (checked_prefix dev (touched_surfaces st (pstate_mem w) idx))\<rparr>)"
  using st idx shadows
proof (induction idx arbitrary: w)
  case Nil
  then show ?case by simp
next
  case (Cons i rest)
  from Cons.prems(2) have i: "i < num_plane dev" and rest: "set rest \<subseteq> {..<num_plane dev}"
    by auto
  show ?case
  proof (cases "planes st ! i")
    case None
    with Cons.prems(1) i len Cons.IH [OF Cons.prems(1) rest Cons.prems(3)] show ?thesis
      by (simp add: touched_surfaces_Cons)
  next
    case (Some p)
    with Cons.prems(3) i obtain ps where ps: "deref (pstates st ! i) (pstate_mem w) = Some ps"
      by auto
    let ?w1 = "emit (Check_plane_state p ps) w"
    have ih: "check_planes dev (Some a) rest 0 ?w1 =
           Some (first_error dev (touched_surfaces st (pstate_mem w) rest),
                 ?w1\<lparr>trace := trace ?w1 @ map check_event
                     (checked_prefix dev (touched_surfaces st (pstate_mem w) rest))\<rparr>)"
      using Cons.IH [of ?w1] Cons.prems(1,3) rest by simp
    show ?thesis
    proof (cases "check_plane_state dev p ps = 0")
      case True
      with Cons.prems(1) i len Some ps ih show ?thesis
        by (simp add: touched_surfaces_Cons drm_atomic_check_plane_state_def check_event_def emit_def)
    next
      case False
      with Cons.prems(1) i len Some ps show ?thesis
        by (simp add: touched_surfaces_Cons drm_atomic_check_plane_state_def check_event_def emit_def)
    qed
  qed
qed

text \<open>
  Claim C3. \<open>validate\<close> calls the check hook on the shadow of each touched surface,
  in the order of the surface indices, up to and including the first surface whose
  check fails; it returns the result of that check, and 0 when every check
  succeeds or no surface is touched. It changes nothing but the record of these
  calls, and no call is a check of an output.
\<close>

theorem validate_checks_touched_surfaces:
  assumes "helper_mem w a = Some st"
    and "length (planes st) = num_plane dev" and "length (pstates st) = num_plane dev"
    and "\<forall>i<num_plane dev. planes st ! i \<noteq> None \<longrightarrow> deref (pstates st ! i) (pstate_mem w) \<noteq> None"
  shows "let touched = touched_surfaces st (pstate_mem w) [0..<num_plane dev];
             calls = map check_event (checked_prefix dev touched)
         in drm_atomic_helper_check dev (Some a) w =
              Some (first_error dev touched, w\<lparr>trace := trace w @ calls\<rparr>) \<and>
            (\<forall>c cs. Check_crtc_state c cs \<notin> set calls)"
proof -
  have "set [0..<num_plane dev] \<subseteq> {..<num_plane dev}" by auto
  from check_planes_spec [OF assms(1) this assms(2,3,4)] show ?thesis
    by (auto simp: drm_atomic_helper_check_def check_event_def Let_def)
qed

theorem validate_checks_touched_surfaces_witness:
  "helper_mem w_plane012 3 = Some \<lparr>flags = 0, planes = [Some 0, Some 1, Some 2],
                                   pstates = [Some 4, Some 5, Some 6],
                                   crtcs = [None, None], cstates = [None, None]\<rparr> \<and>
   drm_atomic_helper_check dev_demo (Some 3) w_plane012 =
     Some (- EINVAL,
           w_plane012\<lparr>trace := [Check_plane_state 0 (boot_plane_state\<lparr>ps_state := Some 3, ps_fb := Some 5\<rparr>),
                               Check_plane_state 1 (boot_plane_state\<lparr>ps_state := Some 3\<rparr>)]\<rparr>)"
  using validate_checks_touched_surfaces
          [of w_plane012 3 "\<lparr>flags = 0, planes = [Some 0, Some 1, Some 2],
                              pstates = [Some 4, Some 5, Some 6],
                              crtcs = [None, None], cstates = [None, None]\<rparr>" dev_demo]
  by (simp add: w_plane012_fields touched_surfaces_def check_event_def
      dev_demo_fields upt_0_3 all_less_3 EINVAL_def)

subsection \<open>Commit of one crtc: the page flip\<close>

text \<open>
  Claim C4. A page flip (the shadow does not ask for a full configuration and holds
  an image that differs from the image of the live state) on a crtc that has no
  bound image (\<open>crtc->fb\<close> is \<open>NULL\<close>) returns \<open>-EBUSY\<close>, the code of the unbound
  resource. The world is the same after the call: the state blocks are not
  swapped, no primitive is called, no reference is released.
\<close>

theorem page_flip_unbound:
  assumes "deref cstate (cstate_mem w) = Some cs"
    and "\<not> cs_set_config cs"
    and "cs_fb cs = Some new_fb"
    and "deref (cr_state (crtc_objs w crtc)) (cstate_mem w) = Some live"
    and "cs_fb live \<noteq> Some new_fb"
    and "cr_fb (crtc_objs w crtc) = None"
  shows "drm_atomic_helper_commit_crtc_state dev crtc cstate w = Some (- EBUSY, w)"
  using assms by (simp add: drm_atomic_helper_commit_crtc_state_def)

theorem page_flip_unbound_witness:
  "deref (Some 4) (cstate_mem w_crtc1) = Some (boot_crtc_state\<lparr>cs_state := Some 3, cs_fb := Some 6\<rparr>) \<and>
   deref (cr_state (crtc_objs w_crtc1 1)) (cstate_mem w_crtc1) = Some (boot_crtc_state\<lparr>cs_fb := None\<rparr>) \<and>
   cr_fb (crtc_objs w_crtc1 1) = None \<and>
   drm_atomic_helper_commit_crtc_state dev_demo 1 (Some 4) w_crtc1 = Some (- 16, w_crtc1)"
  using page_flip_unbound
          [of "Some 4" w_crtc1 "boot_crtc_state\<lparr>cs_state := Some 3, cs_fb := Some 6\<rparr>" 6 1
              "boot_crtc_state\<lparr>cs_fb := None\<rparr>" dev_demo]
  by (simp add: w_crtc1_fields w_boot_fields w_boot_crtc1 boot_crtc_state_def EBUSY_def)

text \<open>
  Claim C5. When the flip primitive returns an error, the commit returns that
  error, the state blocks are not swapped (objects and memory are unchanged), and
  the only reference released is one reference to the new image: the count of
  every other image, the bound image included, is unchanged. So if staging had
  raised the count of the new image by one over some counts \<open>before\<close>, the counts
  after the commit are \<open>before\<close> again.
\<close>

theorem page_flip_failure:
  assumes "deref cstate (cstate_mem w) = Some cs"
    and "\<not> cs_set_config cs"
    and "cs_fb cs = Some new_fb"
    and "deref (cr_state (crtc_objs w crtc)) (cstate_mem w) = Some live"
    and "cs_fb live \<noteq> Some new_fb"
    and "cr_fb (crtc_objs w crtc) = Some old_fb"
    and "page_flip dev crtc = Some flip"
    and "deref (cs_state cs) (helper_mem w) = Some st"
    and "flip new_fb (cs_event cs) (flags st) \<noteq> 0"
  shows "drm_atomic_helper_commit_crtc_state dev crtc cstate w =
           Some (flip new_fb (cs_event cs) (flags st),
                 w\<lparr>fb_refcount := (fb_refcount w)(new_fb := fb_refcount w new_fb - 1),
                   trace := trace w @ [Page_flip crtc new_fb (cs_event cs) (flags st),
                                       Framebuffer_unreference new_fb]\<rparr>) \<and>
         (\<forall>before. fb_refcount w = before(new_fb := before new_fb + 1) \<longrightarrow>
            (fb_refcount w)(new_fb := fb_refcount w new_fb - 1) = before)"
  using assms
  by (auto simp: drm_atomic_helper_commit_crtc_state_def unreference_if_def
      drm_framebuffer_unreference_def emit_def)

theorem page_flip_failure_witness:
  "deref (Some 4) (cstate_mem w_flip9) = Some (boot_crtc_state\<lparr>cs_state := Some 3, cs_fb := Some 9\<rparr>) \<and>
   cr_fb (crtc_objs w_flip9 0) = Some 1 \<and>
   drm_atomic_helper_commit_crtc_state dev_demo 0 (Some 4) w_flip9 =
     Some (- 16, w_flip9\<lparr>fb_refcount := (fb_refcount w_flip9)(9 := 0),
                         trace := [Page_flip 0 9 None 0, Framebuffer_unreference 9]\<rparr>) \<and>
   fb_refcount w_flip9 = ((fb_refcount w_flip9)(9 := 0))(9 := 1) \<and>
   fb_refcount w_flip9 1 = 1"
  using page_flip_failure
          [of "Some 4" w_flip9 "boot_crtc_state\<lparr>cs_state := Some 3, cs_fb := Some 9\<rparr>" 9 0
              boot_crtc_state 1 dev_demo "\<lambda>fb ev fl. if fb = 9 then - EBUSY else 0"
              "\<lparr>flags = 0, planes = [None, None, None], pstates = [None, None, None],
                crtcs = [Some 0, None], cstates = [Some 4, None]\<rparr>"]
  by (auto simp: w_flip9_fields w_boot_fields dev_demo_fields boot_crtc_state_def EBUSY_def)

subsection \<open>Commit of one plane: the update\<close>

text \<open>
  What a successful update does. The commit returns 0 and swaps the two pointers:
  the plane's state pointer is the shadow, whose contents are untouched, and the
  slot of the transaction is the previous live state. The blocks themselves are
  not written. One reference is released when the previous live state had an
  image, to that image, whether or not the shadow holds the same image.
\<close>

lemma commit_plane_state_update:
  assumes "deref pstate (pstate_mem w) = Some ps"
    and "ps_crtc ps = Some crtc" and "ps_fb ps = Some new_fb"
    and "update_plane dev plane crtc new_fb
           (ps_crtc_x ps, ps_crtc_y ps, ps_crtc_w ps, ps_crtc_h ps)
           (ps_src_x ps, ps_src_y ps, ps_src_w ps, ps_src_h ps) = 0"
    and "deref (pl_state (plane_objs w plane)) (pstate_mem w) = Some live"
    and "ps_state ps = Some a" and "helper_mem w a = Some st"
    and "plane < length (pstates st)" and "pstates st ! plane = pstate"
  shows "\<exists>w'. drm_atomic_helper_commit_plane_state dev plane pstate w = Some (0, w') \<and>
           pl_state (plane_objs w' plane) = pstate \<and>
           deref (pl_state (plane_objs w' plane)) (pstate_mem w') = Some ps \<and>
           helper_mem w' a = Some (st\<lparr>pstates := (pstates st)[plane := pl_state (plane_objs w plane)]\<rparr>) \<and>
           pstate_mem w' = pstate_mem w \<and>
           fb_refcount w' =
             (case ps_fb live of
                None \<Rightarrow> fb_refcount w
              | Some old_fb \<Rightarrow> (fb_refcount w)(old_fb := fb_refcount w old_fb - 1)) \<and>
           trace w' =
             trace w @
             Update_plane plane crtc new_fb
               (ps_crtc_x ps, ps_crtc_y ps, ps_crtc_w ps, ps_crtc_h ps)
               (ps_src_x ps, ps_src_y ps, ps_src_w ps, ps_src_h ps) #
             (case ps_fb live of None \<Rightarrow> [] | Some old_fb \<Rightarrow> [Framebuffer_unreference old_fb])"
  using assms
  by (cases "ps_fb live")
     (simp_all add: drm_atomic_helper_commit_plane_state_def swap_plane_state_def Let_def)

lemma w_moved_fields:
  "helper_mem w_moved 3 = Some \<lparr>flags = 0, planes = [Some 0, None, None], pstates = [Some 4, None, None],
                                 crtcs = [None, None], cstates = [None, None]\<rparr>"
  "plane_objs w_moved = plane_objs w_boot"
  "pstate_mem w_moved = (pstate_mem w_boot)(4 \<mapsto> boot_plane_state\<lparr>ps_state := Some 3, ps_crtc_x := 100\<rparr>)"
  "fb_refcount w_moved = fb_refcount w_boot"
  "trace w_moved = []"
  by (simp_all add: w_moved_def after_def drm_atomic_helper_plane_set_property_def
      drm_atomic_helper_get_plane_state_def drm_atomic_helper_init_plane_state_def
      w_begun_fields w_boot_fields kzalloc_def dev_demo_def)

text \<open>
  Claim C6 at a concrete transaction: plane 0 shows image 1 on crtc 0, and the
  transaction only moves it, so the shadow is the copy of the live state with a
  new position and the same image. Staging copies the image pointer and takes no
  reference: the count of image 1 is 1 before and after staging. The update
  succeeds and the commit returns 0. The live state of plane 0 is then the shadow,
  which shows image 1, and the commit has released one reference to image 1, the
  image of the previous live state: its count is 0 while plane 0 shows it.
\<close>

theorem update_with_same_image_releases_it:
  "fb_refcount w_begun 1 = 1 \<and> fb_refcount w_moved 1 = 1 \<and>
   deref (pl_state (plane_objs w_moved 0)) (pstate_mem w_moved) = Some boot_plane_state \<and>
   ps_fb boot_plane_state = Some 1 \<and>
   deref (Some 4) (pstate_mem w_moved) = Some (boot_plane_state\<lparr>ps_state := Some 3, ps_crtc_x := 100\<rparr>) \<and>
   (\<exists>w'. drm_atomic_helper_commit_plane_state dev_demo 0 (Some 4) w_moved = Some (0, w') \<and>
      trace w' = [Update_plane 0 0 1 (100, 0, 0, 0) (0, 0, 0, 0), Framebuffer_unreference 1] \<and>
      deref (pl_state (plane_objs w' 0)) (pstate_mem w') =
        Some (boot_plane_state\<lparr>ps_state := Some 3, ps_crtc_x := 100\<rparr>) \<and>
      ps_fb (boot_plane_state\<lparr>ps_state := Some 3, ps_crtc_x := 100\<rparr>) = Some 1 \<and>
      fb_refcount w' 1 = 0)"
  by (simp add: drm_atomic_helper_commit_plane_state_def swap_plane_state_def Let_def
      w_moved_fields w_begun_fields w_boot_fields dev_demo_fields boot_plane_state_def)

subsection \<open>Staging\<close>

lemma get_plane_state_first:
  assumes st: "helper_mem w a = Some st"
    and p: "p < length (pstates st)" "p < length (planes st)"
    and empty: "pstates st ! p = None"
    and alloc: "alloc_ok dev (n_alloc w)"
    and live: "deref (pl_state (plane_objs w p)) (pstate_mem w) = Some live"
  shows "\<exists>w1. drm_atomic_helper_get_plane_state dev p (Some a) w = Some (Some (n_alloc w), w1) \<and>
           pstate_mem w1 = (pstate_mem w)(n_alloc w \<mapsto> live\<lparr>ps_state := Some a\<rparr>) \<and>
           helper_mem w1 = (helper_mem w)(a \<mapsto> st\<lparr>planes := (planes st)[p := Some p],
                                                    pstates := (pstates st)[p := Some (n_alloc w)]\<rparr>) \<and>
           n_alloc w1 = Suc (n_alloc w) \<and> plane_objs w1 = plane_objs w \<and>
           crtc_objs w1 = crtc_objs w \<and> cstate_mem w1 = cstate_mem w \<and>
           fb_refcount w1 = fb_refcount w \<and> trace w1 = trace w \<and>
           drm_atomic_helper_get_plane_state dev p (Some a) w1 = Some (Some (n_alloc w), w1)"
proof -
  from assms obtain w1 where
    first: "drm_atomic_helper_get_plane_state dev p (Some a) w = Some (Some (n_alloc w), w1)"
    by (simp add: drm_atomic_helper_get_plane_state_def drm_atomic_helper_init_plane_state_def
        kzalloc_def)
  from get_plane_state_fresh [OF st p(1) empty first] live
  have fields: "pstate_mem w1 = (pstate_mem w)(n_alloc w \<mapsto> live\<lparr>ps_state := Some a\<rparr>)"
    "helper_mem w1 = (helper_mem w)(a \<mapsto> st\<lparr>planes := (planes st)[p := Some p],
                                                    pstates := (pstates st)[p := Some (n_alloc w)]\<rparr>)"
    "n_alloc w1 = Suc (n_alloc w)" "plane_objs w1 = plane_objs w"
    "crtc_objs w1 = crtc_objs w" "cstate_mem w1 = cstate_mem w"
    "fb_refcount w1 = fb_refcount w" "trace w1 = trace w"
    by (auto simp: deref_def split: option.splits)
  from fields(2) p have "drm_atomic_helper_get_plane_state dev p (Some a) w1 = Some (Some (n_alloc w), w1)"
    by (intro get_plane_state_staged
          [where st = "st\<lparr>planes := (planes st)[p := Some p],
                          pstates := (pstates st)[p := Some (n_alloc w)]\<rparr>"]) simp_all
  with first fields show ?thesis by blast
qed

lemma get_crtc_state_first:
  assumes st: "helper_mem w a = Some st"
    and p: "p < length (cstates st)" "p < length (crtcs st)"
    and empty: "cstates st ! p = None"
    and alloc: "alloc_ok dev (n_alloc w)"
    and live: "deref (cr_state (crtc_objs w p)) (cstate_mem w) = Some live"
  shows "\<exists>w1. drm_atomic_helper_get_crtc_state dev p (Some a) w = Some (Some (n_alloc w), w1) \<and>
           cstate_mem w1 = (cstate_mem w)(n_alloc w \<mapsto> live\<lparr>cs_state := Some a\<rparr>) \<and>
           helper_mem w1 = (helper_mem w)(a \<mapsto> st\<lparr>crtcs := (crtcs st)[p := Some p],
                                                    cstates := (cstates st)[p := Some (n_alloc w)]\<rparr>) \<and>
           n_alloc w1 = Suc (n_alloc w) \<and> plane_objs w1 = plane_objs w \<and>
           crtc_objs w1 = crtc_objs w \<and> pstate_mem w1 = pstate_mem w \<and>
           fb_refcount w1 = fb_refcount w \<and> trace w1 = trace w \<and>
           drm_atomic_helper_get_crtc_state dev p (Some a) w1 = Some (Some (n_alloc w), w1)"
proof -
  from assms obtain w1 where
    first: "drm_atomic_helper_get_crtc_state dev p (Some a) w = Some (Some (n_alloc w), w1)"
    by (simp add: drm_atomic_helper_get_crtc_state_def drm_atomic_helper_init_crtc_state_def
        kzalloc_def)
  from get_crtc_state_fresh [OF st p(1) empty first] live
  have fields: "cstate_mem w1 = (cstate_mem w)(n_alloc w \<mapsto> live\<lparr>cs_state := Some a\<rparr>)"
    "helper_mem w1 = (helper_mem w)(a \<mapsto> st\<lparr>crtcs := (crtcs st)[p := Some p],
                                                    cstates := (cstates st)[p := Some (n_alloc w)]\<rparr>)"
    "n_alloc w1 = Suc (n_alloc w)" "plane_objs w1 = plane_objs w"
    "crtc_objs w1 = crtc_objs w" "pstate_mem w1 = pstate_mem w"
    "fb_refcount w1 = fb_refcount w" "trace w1 = trace w"
    by (auto simp: deref_def split: option.splits)
  from fields(2) p have "drm_atomic_helper_get_crtc_state dev p (Some a) w1 = Some (Some (n_alloc w), w1)"
    by (intro get_crtc_state_staged
          [where st = "st\<lparr>crtcs := (crtcs st)[p := Some p],
                          cstates := (cstates st)[p := Some (n_alloc w)]\<rparr>"]) simp_all
  with first fields show ?thesis by blast
qed

lemma slots_kept_refl [simp]: "slots_kept st st"
  by (simp add: slots_kept_def)

lemma slots_kept_trans: "slots_kept st st1 \<Longrightarrow> slots_kept st1 st2 \<Longrightarrow> slots_kept st st2"
  by (simp add: slots_kept_def)

lemma get_plane_state_keeps:
  assumes st: "helper_mem w a = Some st"
    and get: "drm_atomic_helper_get_plane_state dev p (Some a) w = Some (r, w')"
  shows "\<exists>st'. helper_mem w' a = Some st' \<and> slots_kept st st'"
proof -
  from st get have p: "p < length (pstates st)" by (rule get_plane_state_in_range)
  show ?thesis
  proof (cases "pstates st ! p")
    case None
    from get_plane_state_fresh [OF st p None get]
    have "helper_mem w' a = Some (st\<lparr>planes := (planes st)[p := Some p],
                                     pstates := (pstates st)[p := Some (n_alloc w)]\<rparr>)"
      by auto
    moreover from None p have "slots_kept st (st\<lparr>planes := (planes st)[p := Some p],
                                     pstates := (pstates st)[p := Some (n_alloc w)]\<rparr>)"
      by (auto simp: slots_kept_def nth_list_update)
    ultimately show ?thesis by blast
  next
    case (Some s)
    with st p get show ?thesis by (simp add: get_plane_state_staged)
  qed
qed

lemma get_crtc_state_keeps:
  assumes st: "helper_mem w a = Some st"
    and get: "drm_atomic_helper_get_crtc_state dev p (Some a) w = Some (r, w')"
  shows "\<exists>st'. helper_mem w' a = Some st' \<and> slots_kept st st'"
proof -
  from st get have p: "p < length (cstates st)" by (rule get_crtc_state_in_range)
  show ?thesis
  proof (cases "cstates st ! p")
    case None
    from get_crtc_state_fresh [OF st p None get]
    have "helper_mem w' a = Some (st\<lparr>crtcs := (crtcs st)[p := Some p],
                                     cstates := (cstates st)[p := Some (n_alloc w)]\<rparr>)"
      by auto
    moreover from None p have "slots_kept st (st\<lparr>crtcs := (crtcs st)[p := Some p],
                                     cstates := (cstates st)[p := Some (n_alloc w)]\<rparr>)"
      by (auto simp: slots_kept_def nth_list_update)
    ultimately show ?thesis by blast
  next
    case (Some s)
    with st p get show ?thesis by (simp add: get_crtc_state_staged)
  qed
qed

lemma staging_keeps:
  assumes "staging dev a w w'" and "helper_mem w a = Some st"
  shows "\<exists>st'. helper_mem w' a = Some st' \<and> slots_kept st st'"
  using assms
proof (induction rule: staging.induct)
  case (staging_refl w)
  then show ?case by simp
next
  case (staging_get_plane_state w w1 plane p w2)
  then obtain st1 where st1: "helper_mem w1 a = Some st1" "slots_kept st st1" by blast
  from get_plane_state_keeps [OF st1(1) staging_get_plane_state.hyps(2)] st1(2)
  show ?case by (blast intro: slots_kept_trans)
next
  case (staging_get_crtc_state w w1 crtc p w2)
  then obtain st1 where st1: "helper_mem w1 a = Some st1" "slots_kept st st1" by blast
  from get_crtc_state_keeps [OF st1(1) staging_get_crtc_state.hyps(2)] st1(2)
  show ?case by (blast intro: slots_kept_trans)
next
  case (staging_plane_set_property w w1 plane property val r w2)
  then obtain st1 where st1: "helper_mem w1 a = Some st1" "slots_kept st st1" by blast
  from staging_plane_set_property.hyps(2) obtain p w3 m
    where g: "drm_atomic_helper_get_plane_state dev plane (Some a) w1 = Some (p, w3)"
      and w2: "w2 = w3\<lparr>pstate_mem := m\<rparr>"
    by (auto simp: drm_atomic_helper_plane_set_property_def Let_def
        split: Option.bind_splits prod.splits)
  from get_plane_state_keeps [OF st1(1) g] st1(2) w2
  show ?case by (auto intro: slots_kept_trans)
next
  case (staging_crtc_set_property w w1 crtc property val r w2)
  then obtain st1 where st1: "helper_mem w1 a = Some st1" "slots_kept st st1" by blast
  from staging_crtc_set_property.hyps(2) obtain p w3 m
    where g: "drm_atomic_helper_get_crtc_state dev crtc (Some a) w1 = Some (p, w3)"
      and w2: "w2 = w3\<lparr>cstate_mem := m\<rparr>"
    by (auto simp: drm_atomic_helper_crtc_set_property_def Let_def
        split: Option.bind_splits prod.splits)
  from get_crtc_state_keeps [OF st1(1) g] st1(2) w2
  show ?case by (auto intro: slots_kept_trans)
next
  case (staging_set_event w w1 obj ev r w2)
  then obtain st1 where st1: "helper_mem w1 a = Some st1" "slots_kept st st1" by blast
  show ?case
  proof (cases obj)
    case (Object_crtc c)
    with staging_set_event.hyps(2) obtain p w3 m
      where g: "drm_atomic_helper_get_crtc_state dev c (Some a) w1 = Some (p, w3)"
        and w2: "w2 = w3\<lparr>cstate_mem := m\<rparr>"
      by (auto simp: drm_atomic_helper_set_event_def split: Option.bind_splits)
    from get_crtc_state_keeps [OF st1(1) g] st1(2) w2
    show ?thesis by (auto intro: slots_kept_trans)
  next
    case (Object_other x)
    with staging_set_event.hyps(2) st1 show ?thesis
      by (auto simp: drm_atomic_helper_set_event_def)
  qed
next
  case (staging_check w w1 r w2)
  then obtain st1 where st1: "helper_mem w1 a = Some st1" "slots_kept st st1" by blast
  from staging_check.hyps(2) have "same_mem w1 w2"
    by (auto simp: drm_atomic_helper_check_def dest: check_planes_same_mem)
  with st1 show ?case by (auto simp: same_mem_def)
qed

lemma get_plane_state_later:
  assumes "helper_mem w a = Some st" and "q < length (pstates st)" and "pstates st ! q = Some s"
    and "staging dev a w w2"
  shows "drm_atomic_helper_get_plane_state dev q (Some a) w2 = Some (Some s, w2)"
proof -
  from staging_keeps [OF assms(4,1)] obtain st2
    where st2: "helper_mem w2 a = Some st2" "slots_kept st st2" by blast
  from st2(2) assms(2,3) have "q < length (pstates st2)" "pstates st2 ! q = Some s"
    by (auto simp: slots_kept_def)
  with st2(1) show ?thesis by (simp add: get_plane_state_staged)
qed

lemma get_crtc_state_later:
  assumes "helper_mem w a = Some st" and "q < length (cstates st)" and "cstates st ! q = Some s"
    and "staging dev a w w2"
  shows "drm_atomic_helper_get_crtc_state dev q (Some a) w2 = Some (Some s, w2)"
proof -
  from staging_keeps [OF assms(4,1)] obtain st2
    where st2: "helper_mem w2 a = Some st2" "slots_kept st st2" by blast
  from st2(2) assms(2,3) have "q < length (cstates st2)" "cstates st2 ! q = Some s"
    by (auto simp: slots_kept_def)
  with st2(1) show ?thesis by (simp add: get_crtc_state_staged)
qed

text \<open>
  Claim C7. The first staging call for a resource (its slot is empty) allocates a
  block, copies the live state of the resource into it with the back-reference
  set to the transaction, and records the marker and the slot; it changes nothing
  else, and the same call made again returns the same block and leaves the world
  as it is. When the slot of a resource is filled, every staging call for it, now
  or after any further staging, property and event calls and checks of the
  transaction, returns the block of the slot and leaves the world as it is. This
  holds for planes (\<open>p\<close> with an empty slot, \<open>q\<close> with a filled one) and for crtcs
  (\<open>c\<close> and \<open>d\<close>).
\<close>

theorem stage_is_idempotent:
  assumes "helper_mem w a = Some st"
  shows "(p < length (pstates st) \<and> p < length (planes st) \<and> pstates st ! p = None \<and>
          alloc_ok dev (n_alloc w) \<and> deref (pl_state (plane_objs w p)) (pstate_mem w) = Some plive \<longrightarrow>
          (\<exists>w1. drm_atomic_helper_get_plane_state dev p (Some a) w = Some (Some (n_alloc w), w1) \<and>
             pstate_mem w1 = (pstate_mem w)(n_alloc w \<mapsto> plive\<lparr>ps_state := Some a\<rparr>) \<and>
             helper_mem w1 = (helper_mem w)(a \<mapsto> st\<lparr>planes := (planes st)[p := Some p],
                                                      pstates := (pstates st)[p := Some (n_alloc w)]\<rparr>) \<and>
             n_alloc w1 = Suc (n_alloc w) \<and> plane_objs w1 = plane_objs w \<and>
             crtc_objs w1 = crtc_objs w \<and> cstate_mem w1 = cstate_mem w \<and>
             fb_refcount w1 = fb_refcount w \<and> trace w1 = trace w \<and>
             drm_atomic_helper_get_plane_state dev p (Some a) w1 = Some (Some (n_alloc w), w1))) \<and>
         (q < length (pstates st) \<and> pstates st ! q = Some s \<and> staging dev a w w2 \<longrightarrow>
          drm_atomic_helper_get_plane_state dev q (Some a) w2 = Some (Some s, w2)) \<and>
         (c < length (cstates st) \<and> c < length (crtcs st) \<and> cstates st ! c = None \<and>
          alloc_ok dev (n_alloc w) \<and> deref (cr_state (crtc_objs w c)) (cstate_mem w) = Some clive \<longrightarrow>
          (\<exists>w1. drm_atomic_helper_get_crtc_state dev c (Some a) w = Some (Some (n_alloc w), w1) \<and>
             cstate_mem w1 = (cstate_mem w)(n_alloc w \<mapsto> clive\<lparr>cs_state := Some a\<rparr>) \<and>
             helper_mem w1 = (helper_mem w)(a \<mapsto> st\<lparr>crtcs := (crtcs st)[c := Some c],
                                                      cstates := (cstates st)[c := Some (n_alloc w)]\<rparr>) \<and>
             n_alloc w1 = Suc (n_alloc w) \<and> plane_objs w1 = plane_objs w \<and>
             crtc_objs w1 = crtc_objs w \<and> pstate_mem w1 = pstate_mem w \<and>
             fb_refcount w1 = fb_refcount w \<and> trace w1 = trace w \<and>
             drm_atomic_helper_get_crtc_state dev c (Some a) w1 = Some (Some (n_alloc w), w1))) \<and>
         (d < length (cstates st) \<and> cstates st ! d = Some t \<and> staging dev a w w3 \<longrightarrow>
          drm_atomic_helper_get_crtc_state dev d (Some a) w3 = Some (Some t, w3))"
  using get_plane_state_first [OF assms, of p dev plive]
    get_crtc_state_first [OF assms, of c dev clive]
    get_plane_state_later [OF assms, of q s dev w2]
    get_crtc_state_later [OF assms, of d t dev w3]
  by blast

lemma staged1_call:
  "drm_atomic_helper_get_plane_state dev_demo 1 (Some 3) w_staged = Some (Some 6, w_staged1)"
  by (simp add: w_staged1_def after_def
      drm_atomic_helper_get_plane_state_def drm_atomic_helper_init_plane_state_def
      w_staged_fields w_boot_fields kzalloc_def dev_demo_def)

lemma w_staged1_fields:
  "helper_mem w_staged1 3 = Some \<lparr>flags = 0, planes = [Some 0, Some 1, None], pstates = [Some 4, Some 6, None],
                                   crtcs = [Some 0, None], cstates = [Some 5, None]\<rparr>"
  "pstate_mem w_staged1 6 = Some (boot_plane_state\<lparr>ps_state := Some 3\<rparr>)"
  by (simp_all add: w_staged1_def after_def
      drm_atomic_helper_get_plane_state_def drm_atomic_helper_init_plane_state_def
      w_staged_fields w_boot_fields kzalloc_def dev_demo_def)

theorem stage_is_idempotent_witness:
  "helper_mem w_staged 3 = Some \<lparr>flags = 0, planes = [Some 0, None, None], pstates = [Some 4, None, None],
                                  crtcs = [Some 0, None], cstates = [Some 5, None]\<rparr> \<and>
   drm_atomic_helper_get_plane_state dev_demo 1 (Some 3) w_staged = Some (Some 6, w_staged1) \<and>
   pstate_mem w_staged1 6 = Some (boot_plane_state\<lparr>ps_state := Some 3\<rparr>) \<and>
   helper_mem w_staged1 3 = Some \<lparr>flags = 0, planes = [Some 0, Some 1, None], pstates = [Some 4, Some 6, None],
                                   crtcs = [Some 0, None], cstates = [Some 5, None]\<rparr> \<and>
   drm_atomic_helper_get_plane_state dev_demo 1 (Some 3) w_staged1 = Some (Some 6, w_staged1) \<and>
   staging dev_demo 3 w_staged w_staged1 \<and>
   drm_atomic_helper_get_plane_state dev_demo 0 (Some 3) w_staged1 = Some (Some 4, w_staged1) \<and>
   (\<exists>w1. drm_atomic_helper_get_crtc_state dev_demo 1 (Some 3) w_staged = Some (Some 6, w1) \<and>
      cstate_mem w1 6 = Some (boot_crtc_state\<lparr>cs_fb := None, cs_state := Some 3\<rparr>) \<and>
      helper_mem w1 3 = Some \<lparr>flags = 0, planes = [Some 0, None, None], pstates = [Some 4, None, None],
                               crtcs = [Some 0, Some 1], cstates = [Some 5, Some 6]\<rparr> \<and>
      drm_atomic_helper_get_crtc_state dev_demo 1 (Some 3) w1 = Some (Some 6, w1)) \<and>
   drm_atomic_helper_get_crtc_state dev_demo 0 (Some 3) w_staged1 = Some (Some 5, w_staged1)"
proof -
  have s: "staging dev_demo 3 w_staged w_staged1"
    using staging_refl staged1_call by (rule staging_get_plane_state)
  from stage_is_idempotent
          [of w_staged 3
              "\<lparr>flags = 0, planes = [Some 0, None, None], pstates = [Some 4, None, None],
                crtcs = [Some 0, None], cstates = [Some 5, None]\<rparr>"
              1 dev_demo boot_plane_state 0 4 w_staged1 1 "boot_crtc_state\<lparr>cs_fb := None\<rparr>" 0 5
              w_staged1]
    s staged1_call
  show ?thesis
    by (auto simp: w_staged_fields w_staged1_fields w_boot_fields w_boot_crtc1 dev_demo_fields)
qed

subsection \<open>Markers and shadows\<close>

text \<open>
  Claim C8. On a device whose counts fit the byte count of \<open>begin\<close>, in every world
  that a transaction reaches through \<open>begin\<close>, staging, property and event calls,
  checks and commits, the four arrays have the lengths of the device's counts,
  and at every index the shadow slot is filled exactly when the marker is set,
  for planes and for crtcs.
\<close>

theorem markers_and_shadows_agree:
  assumes "reachable dev a w"
  shows "\<exists>st. helper_mem w a = Some st \<and>
           length (planes st) = num_plane dev \<and> length (pstates st) = num_plane dev \<and>
           length (crtcs st) = num_crtc dev \<and> length (cstates st) = num_crtc dev \<and>
           (\<forall>i<num_plane dev. (pstates st ! i \<noteq> None) = (planes st ! i \<noteq> None)) \<and>
           (\<forall>i<num_crtc dev. (cstates st ! i \<noteq> None) = (crtcs st ! i \<noteq> None))"
proof -
  from assms have "txn_inv dev a w" by (rule reachable_inv)
  then obtain st where st: "helper_mem w a = Some st" and ok: "arrays_ok dev w st"
    by (auto simp: txn_inv_def split: option.splits)
  from ok have "\<forall>i<num_plane dev. (pstates st ! i \<noteq> None) = (planes st ! i \<noteq> None)"
    and "\<forall>i<num_crtc dev. (cstates st ! i \<noteq> None) = (crtcs st ! i \<noteq> None)"
    unfolding arrays_ok_def slot_ok_def by auto
  with st ok show ?thesis by (simp add: arrays_ok_def)
qed

lemma w_committed_fields:
  "helper_mem w_committed 3 = Some \<lparr>flags = 0, planes = [Some 0, None, None], pstates = [Some 0, None, None],
                                     crtcs = [Some 0, None], cstates = [Some 5, None]\<rparr>"
  "plane_objs w_committed = (plane_objs w_boot)(0 := \<lparr>pl_state = Some 4, pl_propvals = Some 4\<rparr>)"
  "crtc_objs w_committed = crtc_objs w_boot"
  "pstate_mem w_committed = pstate_mem w_staged"
  "cstate_mem w_committed = cstate_mem w_staged"
  "fb_refcount w_committed = (fb_refcount w_boot)(1 := 0)"
  "trace w_committed = [Update_plane 0 0 5 (0, 0, 0, 0) (0, 0, 0, 0), Framebuffer_unreference 1]"
  by (simp_all add: w_committed_def after_def drm_atomic_helper_commit_def
      drm_atomic_commit_plane_state_def drm_atomic_commit_crtc_state_def
      drm_atomic_helper_commit_plane_state_def drm_atomic_helper_commit_crtc_state_def
      swap_plane_state_def
      w_staged_fields w_boot_fields dev_demo_fields upt_0_3 upt_0_2 boot_plane_state_def
      boot_crtc_state_def EINVAL_def)

lemma reachable_w_committed: "reachable dev_demo 3 w_committed"
  using reachable_w_staged commit_w_staged by (rule reach_commit)

theorem markers_and_shadows_agree_witness:
  "reachable dev_demo 3 w_committed \<and>
   (\<exists>st. helper_mem w_committed 3 = Some st \<and>
      planes st = [Some 0, None, None] \<and> pstates st = [Some 0, None, None] \<and>
      crtcs st = [Some 0, None] \<and> cstates st = [Some 5, None] \<and>
      (pstates st ! 0 \<noteq> None) = (planes st ! 0 \<noteq> None) \<and>
      (pstates st ! 1 \<noteq> None) = (planes st ! 1 \<noteq> None) \<and>
      (pstates st ! 2 \<noteq> None) = (planes st ! 2 \<noteq> None) \<and>
      (cstates st ! 0 \<noteq> None) = (crtcs st ! 0 \<noteq> None) \<and>
      (cstates st ! 1 \<noteq> None) = (crtcs st ! 1 \<noteq> None))"
  using markers_and_shadows_agree [OF reachable_w_committed] reachable_w_committed
  by (simp add: w_committed_fields dev_demo_fields)

subsection \<open>Resources that are not staged\<close>

lemma unstaged_plane_sep:
  assumes inv: "txn_inv dev a w" and st: "helper_mem w a = Some st"
    and i: "i < num_plane dev" "planes st ! i = None"
    and j: "j < num_plane dev" "planes st ! j \<noteq> None"
    and li: "pl_state (plane_objs w i) = Some li"
  shows "pl_state (plane_objs w j) \<noteq> Some li" and "pstates st ! j \<noteq> Some li"
proof -
  from inv st have sep: "ptrs_sep (num_plane dev) (n_alloc w) (\<lambda>i. pl_state (plane_objs w i)) (pstates st)"
    by (simp add: txn_inv_def arrays_ok_def)
  from i j have ne: "i \<noteq> j" by auto
  from sep i(1) j(1) li ne show "pl_state (plane_objs w j) \<noteq> Some li"
    unfolding ptrs_sep_def by blast
  from sep i(1) j(1) li show "pstates st ! j \<noteq> Some li"
    unfolding ptrs_sep_def by blast
qed

lemma unstaged_crtc_sep:
  assumes inv: "txn_inv dev a w" and st: "helper_mem w a = Some st"
    and i: "i < num_crtc dev" "crtcs st ! i = None"
    and j: "j < num_crtc dev" "crtcs st ! j \<noteq> None"
    and li: "cr_state (crtc_objs w i) = Some li"
  shows "cr_state (crtc_objs w j) \<noteq> Some li" and "cstates st ! j \<noteq> Some li"
proof -
  from inv st have sep: "ptrs_sep (num_crtc dev) (n_alloc w) (\<lambda>i. cr_state (crtc_objs w i)) (cstates st)"
    by (simp add: txn_inv_def arrays_ok_def)
  from i j have ne: "i \<noteq> j" by auto
  from sep i(1) j(1) li ne show "cr_state (crtc_objs w j) \<noteq> Some li"
    unfolding ptrs_sep_def by blast
  from sep i(1) j(1) li show "cstates st ! j \<noteq> Some li"
    unfolding ptrs_sep_def by blast
qed

lemma end_planes_frame:
  assumes "txn_inv dev a w" and "set idx \<subseteq> {..<num_plane dev}"
    and "end_planes (Some a) idx w = Some w'"
    and "helper_mem w a = Some st" and "i < num_plane dev" and "planes st ! i = None"
  shows "plane_objs w' = plane_objs w \<and> crtc_objs w' = crtc_objs w \<and>
         helper_mem w' = helper_mem w \<and> cstate_mem w' = cstate_mem w \<and> n_alloc w' = n_alloc w \<and>
         deref (pl_state (plane_objs w i)) (pstate_mem w') = deref (pl_state (plane_objs w i)) (pstate_mem w)"
  using assms
proof (induction idx arbitrary: w)
  case Nil
  then show ?case by simp
next
  case (Cons j rest)
  from Cons.prems(2) have j: "j < num_plane dev" and rest: "set rest \<subseteq> {..<num_plane dev}"
    by auto
  note st = Cons.prems(4)
  note len = staged_marker(3,4) [OF Cons.prems(1) st]
  show ?case
  proof (cases "pstates st ! j")
    case None
    with Cons.prems(3) st j len have "end_planes (Some a) rest w = Some w'" by simp
    from Cons.IH [OF Cons.prems(1) rest this st Cons.prems(5,6)] show ?thesis .
  next
    case (Some s)
    with Cons.prems(1) st j have marker: "planes st ! j = Some j"
      by (auto simp: txn_inv_def arrays_ok_def slot_ok_def)
    from Cons.prems(3) st j len Some marker obtain l live
      where l: "pl_state (plane_objs w j) = Some l" and "pstate_mem w l = Some live"
        and run: "end_planes (Some a) rest
                    (w\<lparr>pstate_mem := ((pstate_mem w)(l \<mapsto> live\<lparr>ps_state := None\<rparr>))(s := None)\<rparr>) = Some w'"
      by (auto simp: Let_def split: Option.bind_splits)
    define m2 where "m2 = ((pstate_mem w)(l \<mapsto> live\<lparr>ps_state := None\<rparr>))(s := None)"
    let ?w2 = "w\<lparr>pstate_mem := m2\<rparr>"
    from run have run: "end_planes (Some a) rest ?w2 = Some w'" by (simp only: m2_def)
    from Cons.prems(1) have inv2: "txn_inv dev a ?w2" by simp
    from st have st2: "helper_mem ?w2 a = Some st" by simp
    from Cons.IH [OF inv2 rest run st2 Cons.prems(5,6)]
    have ih: "plane_objs w' = plane_objs w \<and> crtc_objs w' = crtc_objs w \<and>
         helper_mem w' = helper_mem w \<and> cstate_mem w' = cstate_mem w \<and> n_alloc w' = n_alloc w \<and>
         deref (pl_state (plane_objs w i)) (pstate_mem w') = deref (pl_state (plane_objs w i)) m2"
      by simp
    have "deref (pl_state (plane_objs w i)) m2 = deref (pl_state (plane_objs w i)) (pstate_mem w)"
    proof (cases "pl_state (plane_objs w i)")
      case None
      then show ?thesis by simp
    next
      case (Some li)
      from marker have "planes st ! j \<noteq> None" by simp
      from unstaged_plane_sep [OF Cons.prems(1) st Cons.prems(5,6) j this Some] l \<open>pstates st ! j = Some s\<close>
      have "li \<noteq> l" "li \<noteq> s" by auto
      with Some show ?thesis by (simp add: m2_def)
    qed
    with ih show ?thesis by simp
  qed
qed

lemma end_planes_cstate:
  assumes "end_planes state idx w = Some w'"
  shows "plane_objs w' = plane_objs w \<and> crtc_objs w' = crtc_objs w \<and>
         helper_mem w' = helper_mem w \<and> cstate_mem w' = cstate_mem w \<and> n_alloc w' = n_alloc w"
  using assms
proof (induction idx arbitrary: w)
  case Nil
  then show ?case by simp
next
  case (Cons j rest)
  from Cons.prems obtain w2 where "end_planes state rest w2 = Some w'"
    and "plane_objs w2 = plane_objs w \<and> crtc_objs w2 = crtc_objs w \<and>
         helper_mem w2 = helper_mem w \<and> cstate_mem w2 = cstate_mem w \<and> n_alloc w2 = n_alloc w"
    by (auto simp: Let_def split: Option.bind_splits option.splits)
  with Cons.IH [of w2] show ?case by simp
qed

lemma end_crtcs_pstate:
  assumes "end_crtcs state idx w = Some w'"
  shows "plane_objs w' = plane_objs w \<and> crtc_objs w' = crtc_objs w \<and>
         helper_mem w' = helper_mem w \<and> pstate_mem w' = pstate_mem w \<and> n_alloc w' = n_alloc w"
  using assms
proof (induction idx arbitrary: w)
  case Nil
  then show ?case by simp
next
  case (Cons j rest)
  from Cons.prems obtain w2 where "end_crtcs state rest w2 = Some w'"
    and "plane_objs w2 = plane_objs w \<and> crtc_objs w2 = crtc_objs w \<and>
         helper_mem w2 = helper_mem w \<and> pstate_mem w2 = pstate_mem w \<and> n_alloc w2 = n_alloc w"
    by (auto simp: Let_def split: Option.bind_splits option.splits)
  with Cons.IH [of w2] show ?case by simp
qed

lemma end_crtcs_frame:
  assumes "txn_inv dev a w" and "set idx \<subseteq> {..<num_crtc dev}"
    and "end_crtcs (Some a) idx w = Some w'"
    and "helper_mem w a = Some st" and "i < num_crtc dev" and "crtcs st ! i = None"
  shows "deref (cr_state (crtc_objs w i)) (cstate_mem w') = deref (cr_state (crtc_objs w i)) (cstate_mem w)"
  using assms
proof (induction idx arbitrary: w)
  case Nil
  then show ?case by simp
next
  case (Cons j rest)
  from Cons.prems(2) have j: "j < num_crtc dev" and rest: "set rest \<subseteq> {..<num_crtc dev}"
    by auto
  note st = Cons.prems(4)
  note len = staged_marker(5,6) [OF Cons.prems(1) st]
  show ?case
  proof (cases "cstates st ! j")
    case None
    with Cons.prems(3) st j len have "end_crtcs (Some a) rest w = Some w'" by simp
    from Cons.IH [OF Cons.prems(1) rest this st Cons.prems(5,6)] show ?thesis .
  next
    case (Some s)
    with Cons.prems(1) st j have marker: "crtcs st ! j = Some j"
      by (auto simp: txn_inv_def arrays_ok_def slot_ok_def)
    from Cons.prems(3) st j len Some marker obtain l live
      where l: "cr_state (crtc_objs w j) = Some l" and "cstate_mem w l = Some live"
        and run: "end_crtcs (Some a) rest
                    (w\<lparr>cstate_mem := ((cstate_mem w)(l \<mapsto> live\<lparr>cs_state := None\<rparr>))(s := None)\<rparr>) = Some w'"
      by (auto simp: Let_def split: Option.bind_splits)
    define m2 where "m2 = ((cstate_mem w)(l \<mapsto> live\<lparr>cs_state := None\<rparr>))(s := None)"
    let ?w2 = "w\<lparr>cstate_mem := m2\<rparr>"
    from run have run: "end_crtcs (Some a) rest ?w2 = Some w'" by (simp only: m2_def)
    from Cons.prems(1) have inv2: "txn_inv dev a ?w2" by simp
    from st have st2: "helper_mem ?w2 a = Some st" by simp
    from Cons.IH [OF inv2 rest run st2 Cons.prems(5,6)]
    have ih: "deref (cr_state (crtc_objs w i)) (cstate_mem w') = deref (cr_state (crtc_objs w i)) m2"
      by simp
    have "deref (cr_state (crtc_objs w i)) m2 = deref (cr_state (crtc_objs w i)) (cstate_mem w)"
    proof (cases "cr_state (crtc_objs w i)")
      case None
      then show ?thesis by simp
    next
      case (Some li)
      from marker have "crtcs st ! j \<noteq> None" by simp
      from unstaged_crtc_sep [OF Cons.prems(1) st Cons.prems(5,6) j this Some] l \<open>cstates st ! j = Some s\<close>
      have "li \<noteq> l" "li \<noteq> s" by auto
      with Some show ?thesis by (simp add: m2_def)
    qed
    with ih show ?thesis by simp
  qed
qed

lemma unstaged_check:
  assumes "drm_atomic_helper_check dev state w = Some (r, w')"
  shows "plane_live w' i = plane_live w i" and "crtc_live w' i = crtc_live w i"
    and "staged_planes a w' = staged_planes a w" and "staged_crtcs a w' = staged_crtcs a w"
  using check_planes_same_mem [of dev state "[0..<num_plane dev]" 0 w r w'] assms
  by (simp_all add: drm_atomic_helper_check_def same_mem_def plane_live_def crtc_live_def
      staged_planes_def staged_crtcs_def)

lemma unstaged_commit:
  assumes inv: "txn_inv dev a w" and c: "drm_atomic_helper_commit dev (Some a) w = Some (r, w')"
  shows "i \<notin> staged_planes a w \<Longrightarrow> plane_live w' i = plane_live w i"
    and "i \<notin> staged_crtcs a w \<Longrightarrow> crtc_live w' i = crtc_live w i"
    and "staged_planes a w' = staged_planes a w" and "staged_crtcs a w' = staged_crtcs a w"
proof -
  from commit_inv_frame [OF inv c] obtain w1
    where f1: "plane_frame a (staged_planes a w) w w1" and f2: "crtc_frame a (staged_crtcs a w) w1 w'"
    by blast
  from f1 f2 show "i \<notin> staged_planes a w \<Longrightarrow> plane_live w' i = plane_live w i"
    by (simp add: plane_frame_def crtc_frame_def plane_live_def)
  from f1 f2 show "i \<notin> staged_crtcs a w \<Longrightarrow> crtc_live w' i = crtc_live w i"
    by (simp add: plane_frame_def crtc_frame_def crtc_live_def)
  from plane_frame_staged [OF f1] crtc_frame_staged [OF f2]
  show "staged_planes a w' = staged_planes a w" and "staged_crtcs a w' = staged_crtcs a w"
    by simp_all
qed

lemma unstaged_end:
  assumes inv: "txn_inv dev a w" and e: "drm_atomic_helper_end dev (Some a) w = Some w'"
  shows "i < num_plane dev \<Longrightarrow> i \<notin> staged_planes a w \<Longrightarrow> plane_live w' i = plane_live w i"
    and "i < num_crtc dev \<Longrightarrow> i \<notin> staged_crtcs a w \<Longrightarrow> crtc_live w' i = crtc_live w i"
    and "staged_planes a w' = {}" and "staged_crtcs a w' = {}"
proof -
  from inv obtain st where st: "helper_mem w a = Some st"
    by (auto simp: txn_inv_def split: option.splits)
  note len = staged_marker(3,5) [OF inv st]
  from e obtain w1 w2 where p: "end_planes (Some a) [0..<num_plane dev] w = Some w1"
    and q: "end_crtcs (Some a) [0..<num_crtc dev] w1 = Some w2"
    and w': "w' = w2\<lparr>helper_mem := (helper_mem w2)(a := None)\<rparr>"
    by (auto simp: drm_atomic_helper_end_def split: Option.bind_splits)
  have sub: "set [0..<num_plane dev] \<subseteq> {..<num_plane dev}" "set [0..<num_crtc dev] \<subseteq> {..<num_crtc dev}"
    by auto
  note p1 = end_planes_cstate [OF p]
  note q1 = end_crtcs_pstate [OF q]
  from inv p1 txn_inv_cong [of w1 w dev a] have inv1: "txn_inv dev a w1" by simp
  from st p1 have st1: "helper_mem w1 a = Some st" by simp
  show "plane_live w' i = plane_live w i" if i: "i < num_plane dev" "i \<notin> staged_planes a w"
  proof -
    from i st len have "planes st ! i = None" by (simp add: staged_planes_def)
    from end_planes_frame [OF inv sub(1) p st i(1) this] q1 show ?thesis
      by (simp add: plane_live_def w')
  qed
  show "crtc_live w' i = crtc_live w i" if i: "i < num_crtc dev" "i \<notin> staged_crtcs a w"
  proof -
    from i st len have "crtcs st ! i = None" by (simp add: staged_crtcs_def)
    from end_crtcs_frame [OF inv1 sub(2) q st1 i(1) this] p1 q1 show ?thesis
      by (simp add: crtc_live_def w')
  qed
  show "staged_planes a w' = {}" and "staged_crtcs a w' = {}"
    by (simp_all add: staged_planes_def staged_crtcs_def w')
qed

text \<open>
  Claim C9. In a world that a transaction has reached (on a device whose counts
  fit the byte count of \<open>begin\<close>), let \<open>w'\<close> be the world after
  \<open>validate\<close>, after \<open>apply\<close> or after \<open>end\<close>, whatever the call returned. Every
  plane and every crtc that the transaction has not staged has the same live
  state in \<open>w'\<close>: the same object fields and the same contents of its state block.
  No resource becomes staged by these calls, so the statement carries over to
  any sequence of them.
\<close>

theorem unstaged_resources_untouched:
  assumes "reachable dev a w"
    and "drm_atomic_helper_check dev (Some a) w = Some (r, w') \<or>
         drm_atomic_helper_commit dev (Some a) w = Some (r, w') \<or>
         drm_atomic_helper_end dev (Some a) w = Some w'"
  shows "(\<forall>i<num_plane dev. i \<notin> staged_planes a w \<longrightarrow> plane_live w' i = plane_live w i) \<and>
         (\<forall>i<num_crtc dev. i \<notin> staged_crtcs a w \<longrightarrow> crtc_live w' i = crtc_live w i) \<and>
         staged_planes a w' \<subseteq> staged_planes a w \<and> staged_crtcs a w' \<subseteq> staged_crtcs a w"
proof -
  from assms(1) have inv: "txn_inv dev a w" by (rule reachable_inv)
  from assms(2) consider
      (check) "drm_atomic_helper_check dev (Some a) w = Some (r, w')"
    | (commit) "drm_atomic_helper_commit dev (Some a) w = Some (r, w')"
    | (ended) "drm_atomic_helper_end dev (Some a) w = Some w'"
    by blast
  then show ?thesis
  proof cases
    case check
    from unstaged_check [OF check] show ?thesis by simp
  next
    case commit
    from unstaged_commit [OF inv commit] show ?thesis by simp
  next
    case ended
    from unstaged_end [OF inv ended] show ?thesis by simp
  qed
qed

lemma end_w_committed: "drm_atomic_helper_end dev_demo (Some 3) w_committed = Some w_ended"
  by (simp add: w_ended_def drm_atomic_helper_end_def w_committed_fields w_staged_fields
      w_boot_fields dev_demo_fields upt_0_3 upt_0_2 Let_def)

theorem unstaged_resources_untouched_witness:
  "reachable dev_demo 3 w_staged \<and>
   drm_atomic_helper_commit dev_demo (Some 3) w_staged = Some (- 22, w_committed) \<and>
   1 \<notin> staged_planes 3 w_staged \<and> plane_live w_committed 1 = plane_live w_staged 1 \<and>
   1 \<notin> staged_crtcs 3 w_staged \<and> crtc_live w_committed 1 = crtc_live w_staged 1 \<and>
   reachable dev_demo 3 w_committed \<and>
   drm_atomic_helper_end dev_demo (Some 3) w_committed = Some w_ended \<and>
   2 \<notin> staged_planes 3 w_committed \<and> plane_live w_ended 2 = plane_live w_committed 2 \<and>
   plane_live w_ended 2 = (\<lparr>pl_state = Some 2, pl_propvals = Some 2\<rparr>, Some boot_plane_state)"
proof -
  have a: "1 \<notin> staged_planes 3 w_staged" "1 \<notin> staged_crtcs 3 w_staged"
    "2 \<notin> staged_planes 3 w_committed"
    by (simp_all add: staged_planes_def staged_crtcs_def w_staged_fields w_committed_fields)
  have b: "plane_live w_committed 2 = (\<lparr>pl_state = Some 2, pl_propvals = Some 2\<rparr>, Some boot_plane_state)"
    by (simp add: plane_live_def w_committed_fields w_staged_fields w_boot_fields)
  from unstaged_resources_untouched [of dev_demo 3 w_staged "- 22" w_committed]
    unstaged_resources_untouched [of dev_demo 3 w_committed 0 w_ended]
    reachable_w_staged reachable_w_committed commit_w_staged end_w_committed a b
  show ?thesis by (simp add: dev_demo_fields)
qed

subsection \<open>Commit of one crtc: the touch that changes nothing\<close>

lemma commit_crtc_state_noop:
  assumes "deref cstate (cstate_mem w) = Some cs"
    and "\<not> cs_set_config cs"
    and "deref (cr_state (crtc_objs w crtc)) (cstate_mem w) = Some live"
    and "cs_fb cs = cs_fb live"
  shows "drm_atomic_helper_commit_crtc_state dev crtc cstate w = Some (- EINVAL, w)"
  using assms by (simp add: drm_atomic_helper_commit_crtc_state_def split: option.splits)

lemma noop_touch_crtc_frame:
  assumes "noop_touch a k w" and "crtc_frame a T w w'" and "k \<notin> T"
  shows "noop_touch a k w'"
  using assms by (auto simp: noop_touch_def crtc_frame_def)

lemma noop_touch_plane_frame:
  assumes "noop_touch a k w" and "plane_frame a T w w'"
  shows "noop_touch a k w'"
  using assms by (auto simp: noop_touch_def plane_frame_def)

lemma commit_crtcs_noop:
  assumes "txn_inv dev a w" and "set idx \<subseteq> {..<num_crtc dev}" and "k \<in> set idx"
    and "noop_touch a k w"
    and "commit_crtcs dev (Some a) idx ret w = Some (r, w')"
  shows "r \<noteq> 0"
  using assms
proof (induction idx arbitrary: ret w)
  case Nil
  then show ?case by simp
next
  case (Cons i rest)
  from Cons.prems(1) obtain st where st: "helper_mem w a = Some st"
    by (auto simp: txn_inv_def split: option.splits)
  from Cons.prems(2) have i: "i < num_crtc dev" and rest: "set rest \<subseteq> {..<num_crtc dev}"
    by auto
  note len = staged_marker(5,6) [OF Cons.prems(1) st]
  show ?case
  proof (cases "i = k")
    case True
    from Cons.prems(4) st obtain cs live where staged: "crtcs st ! k \<noteq> None"
      and cs: "deref (cstates st ! k) (cstate_mem w) = Some cs" "\<not> cs_set_config cs"
      and live: "deref (cr_state (crtc_objs w k)) (cstate_mem w) = Some live" "cs_fb cs = cs_fb live"
      by (auto simp: noop_touch_def)
    from staged True staged_marker(2) [OF Cons.prems(1) st i] have "crtcs st ! k = Some k" by auto
    with Cons.prems(5) st i len True commit_crtc_state_noop [OF cs live, of dev]
    show ?thesis
      by (simp add: drm_atomic_commit_crtc_state_def EINVAL_def)
  next
    case False
    with Cons.prems(3) have k: "k \<in> set rest" by simp
    show ?thesis
    proof (cases "crtcs st ! i")
      case None
      with Cons.prems(5) st i len have "commit_crtcs dev (Some a) rest ret w = Some (r, w')"
        by simp
      from Cons.IH [OF Cons.prems(1) rest k Cons.prems(4) this] show ?thesis .
    next
      case (Some crtc)
      with staged_marker(2) [OF Cons.prems(1) st i] have [simp]: "crtc = i" by simp
      from Cons.prems(5) st i len Some obtain r1 w1
        where c': "drm_atomic_helper_commit_crtc_state dev i (cstates st ! i) w = Some (r1, w1)"
          and cont: "if r1 \<noteq> 0 then r = r1 \<and> w' = w1 else commit_crtcs dev (Some a) rest r1 w1 = Some (r, w')"
        by (auto simp: drm_atomic_commit_crtc_state_def split: Option.bind_splits if_splits)
      from Some have "crtcs st ! i = Some i" by simp
      from commit_crtc_state_inv_frame [OF Cons.prems(1) st this i c']
      have i1: "txn_inv dev a w1" and f1: "crtc_frame a {i} w w1" by simp_all
      from Cons.prems(4) f1 False have n1: "noop_touch a k w1"
        by (auto intro: noop_touch_crtc_frame)
      show ?thesis
      proof (cases "r1 = 0")
        case True
        with cont have "commit_crtcs dev (Some a) rest r1 w1 = Some (r, w')" by simp
        from Cons.IH [OF i1 rest k n1 this] show ?thesis .
      next
        case False
        with cont show ?thesis by simp
      qed
    qed
  qed
qed

lemma commit_noop:
  assumes inv: "txn_inv dev a w" and k: "k < num_crtc dev" and noop: "noop_touch a k w"
    and c: "drm_atomic_helper_commit dev (Some a) w = Some (r, w')"
  shows "r \<noteq> 0"
proof -
  from c obtain r1 w1 where p: "commit_planes dev (Some a) [0..<num_plane dev] 0 w = Some (r1, w1)"
    and q: "commit_crtcs dev (Some a) [0..<num_crtc dev] r1 w1 = Some (r, w')"
    by (auto simp: drm_atomic_helper_commit_def split: Option.bind_splits)
  have sub: "set [0..<num_plane dev] \<subseteq> {..<num_plane dev}" "set [0..<num_crtc dev] \<subseteq> {..<num_crtc dev}"
    by auto
  from commit_planes_inv_frame [OF inv sub(1) p]
  have i1: "txn_inv dev a w1" and f1: "plane_frame a (staged_planes a w) w w1" by auto
  from noop f1 have n1: "noop_touch a k w1" by (rule noop_touch_plane_frame)
  from k have "k \<in> set [0..<num_crtc dev]" by simp
  from commit_crtcs_noop [OF i1 sub(2) this n1 q] show ?thesis .
qed

text \<open>
  Claim C10. A staged crtc whose shadow does not ask for a full configuration and
  holds the image of the live state matches none of the three cases. Its commit
  changes nothing and calls nothing, and returns \<open>-EINVAL\<close>, which is not 0; and a
  commit of a transaction that holds such a crtc never returns 0. The worlds are
  those that a transaction reaches on a device whose counts fit the byte count of
  \<open>begin\<close>.
\<close>

theorem noop_touch_reports_failure:
  assumes "reachable dev a w"
    and "helper_mem w a = Some st"
    and "k < num_crtc dev"
    and "crtcs st ! k \<noteq> None"
    and "deref (cstates st ! k) (cstate_mem w) = Some cs"
    and "\<not> cs_set_config cs"
    and "deref (cr_state (crtc_objs w k)) (cstate_mem w) = Some live"
    and "cs_fb cs = cs_fb live"
  shows "drm_atomic_helper_commit_crtc_state dev k (cstates st ! k) w = Some (- EINVAL, w) \<and>
         - EINVAL \<noteq> 0 \<and>
         (\<forall>r w'. drm_atomic_helper_commit dev (Some a) w = Some (r, w') \<longrightarrow> r \<noteq> 0)"
proof -
  from assms(1) have inv: "txn_inv dev a w" by (rule reachable_inv)
  from assms(2,4-8) have noop: "noop_touch a k w" by (auto simp: noop_touch_def)
  have "\<forall>r w'. drm_atomic_helper_commit dev (Some a) w = Some (r, w') \<longrightarrow> r \<noteq> 0"
    using commit_noop [OF inv assms(3) noop] by blast
  with commit_crtc_state_noop [OF assms(5-8), of dev] show ?thesis
    by (simp add: EINVAL_def)
qed

theorem noop_touch_reports_failure_witness:
  "reachable dev_demo 3 w_staged \<and>
   helper_mem w_staged 3 = Some \<lparr>flags = 0, planes = [Some 0, None, None], pstates = [Some 4, None, None],
                                  crtcs = [Some 0, None], cstates = [Some 5, None]\<rparr> \<and>
   drm_atomic_helper_commit_crtc_state dev_demo 0 (Some 5) w_staged = Some (- 22, w_staged) \<and>
   drm_atomic_helper_commit dev_demo (Some 3) w_staged = Some (- 22, w_committed) \<and> - 22 \<noteq> (0::int)"
  using noop_touch_reports_failure
          [of dev_demo 3 w_staged
              "\<lparr>flags = 0, planes = [Some 0, None, None], pstates = [Some 4, None, None],
                crtcs = [Some 0, None], cstates = [Some 5, None]\<rparr>"
              0 "boot_crtc_state\<lparr>cs_state := Some 3\<rparr>" boot_crtc_state]
    reachable_w_staged commit_w_staged
  by (simp add: w_staged_fields w_boot_fields dev_demo_fields EINVAL_def boot_crtc_state_def)


end
